theory Spec2Isabelle
  imports Main
begin

section \<open>The automation driver and the page it drives\<close>

text \<open>
  The page objects talk to VS Code through a browser-automation driver. The driver, the
  locator tables and the base class of the page objects are outside the sources; the
  model takes the page as data and the application's reaction to an interaction as a
  transition.

  \<^item> An element is a handle. A single-element query (\<open>$\<close>) gives a reference that may
    point at nothing; a command on such a reference rejects with \<open>NoSuchElement\<close>.
    A list query (\<open>$$\<close>) gives the matches in DOM order, possibly none.
  \<^item> A JavaScript number is an integer or NaN here; every comparison with NaN is false.
  \<^item> A promise is \<open>error + 'a\<close>: \<open>Inl\<close> is a rejection.
\<close>

datatype error = NoSuchElement | TypeError | WaitTimeout

type_synonym elem = nat

type_synonym ref = "elem option"

datatype number = Num int | NaN

datatype locator =
    L_inputBox | L_input | L_quickPickSelectAll
  | L_quickPickPosition number | L_quickPickIndex number
  | L_quickPickLabel | L_quickPickDescription
  | L_titleBar | L_title | L_backButton | L_lastRow
  | L_inputField | L_multiScmProvider | L_singleScmProvider | L_multiProviderItem
  | L_stagedChanges | L_changes | L_changeCount | L_itemLevel number | L_action
  | L_row
  | L_buttonContainer | L_button

datatype scope = Document | Below elem

text \<open>
  One snapshot of the page: what each query and each read command answers.
  \<open>appears r\<close> says whether \<open>wait()\<close> of a page object over \<open>r\<close> resolves; \<open>wait\<close>
  belongs to the page objects' base class, which is outside the sources.
\<close>

record dom =
  matches :: "scope \<Rightarrow> locator \<Rightarrow> elem list"
  attributes :: "elem \<Rightarrow> string \<Rightarrow> string option"
  innerText :: "elem \<Rightarrow> string"
  displayed :: "elem \<Rightarrow> bool"
  enabled :: "elem \<Rightarrow> bool"
  selected :: "elem \<Rightarrow> bool"
  appears :: "ref \<Rightarrow> bool"

datatype action =
    Click elem
  | AddValue elem "string list"
  | ClipboardWrite string

text \<open>
  The application: the page it shows now, and the application after each interaction.
  Read commands leave it as it is, and it does not move on its own between two
  commands.
\<close>

codatatype world = World (page: dom) (after: "action \<Rightarrow> world")

datatype command =
    FindOne scope locator
  | FindAll scope locator
  | GetAttribute elem string
  | GetText elem
  | IsDisplayed elem
  | IsEnabled elem
  | IsSelected elem
  | WaitForDisplayed ref
  | Interact action

text \<open>The driver's log: when a command was sent and when its answer came back.\<close>

datatype event = Issued command | Settled command

record session =
  world :: world
  trace :: "event list"

type_synonym 'a async = "session \<Rightarrow> (error + 'a) \<times> session"

definition resolve :: "'a \<Rightarrow> 'a async" where
  "resolve x s = (Inr x, s)"

definition reject :: "error \<Rightarrow> 'a async" where
  "reject e s = (Inl e, s)"

text \<open>\<open>await m f\<close>: run \<open>m\<close> to its end, then continue with its value; a rejection of
  \<open>m\<close> ends the whole computation.\<close>

definition await :: "'a async \<Rightarrow> ('a \<Rightarrow> 'b async) \<Rightarrow> 'b async" where
  "await m f s = (case m s of (Inl e, s') \<Rightarrow> (Inl e, s') | (Inr x, s') \<Rightarrow> f x s')"

text \<open>A read command: the command sent and how its answer is read off the page.\<close>

type_synonym 'a call = "command \<times> (dom \<Rightarrow> error + 'a)"

definition issue :: "'a call \<Rightarrow> 'a async" where
  "issue c s =
     (snd c (page (world s)), s\<lparr>trace := trace s @ [Issued (fst c), Settled (fst c)]\<rparr>)"

text \<open>
  \<open>Promise.all(xs.map(async x => ...))\<close> over read commands: \<open>map\<close> calls every
  callback before any answer can arrive, so all commands are sent first; the answers
  are logged in list order. The result rejects with the first rejection in list order.
\<close>

fun collect :: "(error + 'a) list \<Rightarrow> error + 'a list" where
  "collect [] = Inr []"
| "collect (Inl e # rs) = Inl e"
| "collect (Inr x # rs) = (case collect rs of Inl e \<Rightarrow> Inl e | Inr xs \<Rightarrow> Inr (x # xs))"

definition promise_all :: "'a call list \<Rightarrow> 'a list async" where
  "promise_all cs s =
     (collect (map (\<lambda>c. snd c (page (world s))) cs),
      s\<lparr>trace := trace s @ map (\<lambda>c. Issued (fst c)) cs @ map (\<lambda>c. Settled (fst c)) cs\<rparr>)"

text \<open>An interaction: the application moves on.\<close>

definition perform :: "action \<Rightarrow> unit async" where
  "perform a s =
     (Inr (),
      \<lparr>world = after (world s) a,
       trace = trace s @ [Issued (Interact a), Settled (Interact a)]\<rparr>)"

definition first_match :: "elem list \<Rightarrow> ref" where
  "first_match es = (case es of [] \<Rightarrow> None | e # _ \<Rightarrow> Some e)"

text \<open>\<open>parent.$(l)\<close> and \<open>parent.$$(l)\<close>; \<open>browser.$(l)\<close> searches the document.\<close>

definition find_in_document :: "locator \<Rightarrow> ref async" where
  "find_in_document l = issue (FindOne Document l, \<lambda>d. Inr (first_match (matches d Document l)))"

definition find_one :: "ref \<Rightarrow> locator \<Rightarrow> ref async" where
  "find_one parent l =
     (case parent of
        None \<Rightarrow> reject NoSuchElement
      | Some p \<Rightarrow> issue (FindOne (Below p) l, \<lambda>d. Inr (first_match (matches d (Below p) l))))"

definition find_all :: "ref \<Rightarrow> locator \<Rightarrow> elem list async" where
  "find_all parent l =
     (case parent of
        None \<Rightarrow> reject NoSuchElement
      | Some p \<Rightarrow> issue (FindAll (Below p) l, \<lambda>d. Inr (matches d (Below p) l)))"

definition getAttribute_call :: "elem \<Rightarrow> string \<Rightarrow> (string option) call" where
  "getAttribute_call e name = (GetAttribute e name, \<lambda>d. Inr (attributes d e name))"

definition getAttribute :: "ref \<Rightarrow> string \<Rightarrow> (string option) async" where
  "getAttribute r name =
     (case r of None \<Rightarrow> reject NoSuchElement | Some e \<Rightarrow> issue (getAttribute_call e name))"

definition getText :: "ref \<Rightarrow> string async" where
  "getText r =
     (case r of
        None \<Rightarrow> reject NoSuchElement
      | Some e \<Rightarrow> issue (GetText e, \<lambda>d. Inr (innerText d e)))"

definition isDisplayed :: "elem \<Rightarrow> bool async" where
  "isDisplayed e = issue (IsDisplayed e, \<lambda>d. Inr (displayed d e))"

definition isEnabled :: "elem \<Rightarrow> bool async" where
  "isEnabled e = issue (IsEnabled e, \<lambda>d. Inr (enabled d e))"

definition isSelected :: "elem \<Rightarrow> bool async" where
  "isSelected e = issue (IsSelected e, \<lambda>d. Inr (selected d e))"

definition click :: "elem \<Rightarrow> unit async" where
  "click e = perform (Click e)"

definition addValue :: "ref \<Rightarrow> string list \<Rightarrow> unit async" where
  "addValue r keys =
     (case r of None \<Rightarrow> reject NoSuchElement | Some e \<Rightarrow> perform (AddValue e keys))"

text \<open>JavaScript's \<open>xs[i]\<close>: \<open>undefined\<close> outside the array, and a method call on
  \<open>undefined\<close> throws a TypeError.\<close>

definition at_index :: "'a list \<Rightarrow> int \<Rightarrow> 'a option" where
  "at_index xs i = (if 0 \<le> i \<and> i < int (length xs) then Some (xs ! nat i) else None)"

definition method_on :: "'a option \<Rightarrow> ('a \<Rightarrow> 'b async) \<Rightarrow> 'b async" where
  "method_on x f = (case x of None \<Rightarrow> reject TypeError | Some y \<Rightarrow> f y)"

text \<open>\<open>xs.findIndex(p)\<close>: the first index whose element satisfies \<open>p\<close>, or -1.\<close>

fun findIndex :: "('a \<Rightarrow> bool) \<Rightarrow> 'a list \<Rightarrow> int" where
  "findIndex p [] = -1"
| "findIndex p (x # xs) =
     (if p x then 0 else (let i = findIndex p xs in if i = -1 then -1 else i + 1))"

text \<open>The interactions a trace holds, in the order they were sent.\<close>

fun interactions :: "event list \<Rightarrow> action list" where
  "interactions [] = []"
| "interactions (Issued (Interact a) # es) = a # interactions es"
| "interactions (e # es) = interactions es"

text \<open>A method outside the sources that only reads the page; its own round trips are
  not logged.\<close>

definition reading :: "(dom \<Rightarrow> error + 'a) \<Rightarrow> 'a async" where
  "reading f s = (f (page (world s)), s)"

text \<open>\<open>obj.wait()\<close>: resolves to the page object itself.\<close>

definition wait :: "ref \<Rightarrow> 'a \<Rightarrow> 'a call" where
  "wait r obj = (WaitForDisplayed r, \<lambda>d. if appears d r then Inr obj else Inl WaitTimeout)"

subsection \<open>Numbers\<close>

text \<open>
  Unary plus on an attribute value or a text. \<open>toNumber\<close> is JavaScript's conversion on
  \<open>null\<close> and on the empty string (both 0) and on an optionally signed run of decimal
  digits whose value is below \<open>2 ^ 53\<close> (that integer). It is not the conversion on
  other texts: with white space around the numeral, a decimal point, an exponent, a
  radix prefix or \<open>Infinity\<close>, JavaScript gives a number where \<open>toNumber\<close> gives NaN,
  and above \<open>2 ^ 53\<close> JavaScript rounds to a double where \<open>toNumber\<close> keeps the integer.
  Every theorem below about a number read off the page is therefore stated for pages
  whose texts are \<open>small_decimal\<close> (see below), where the two agree.
\<close>

definition digit_value :: "char \<Rightarrow> nat option" where
  "digit_value c =
     (let n = (of_char c :: nat) in if 48 \<le> n \<and> n \<le> 57 then Some (n - 48) else None)"

fun digits_value :: "nat \<Rightarrow> string \<Rightarrow> nat option" where
  "digits_value acc [] = Some acc"
| "digits_value acc (c # cs) =
     (case digit_value c of None \<Rightarrow> None | Some d \<Rightarrow> digits_value (10 * acc + d) cs)"

definition unsigned_number :: "string \<Rightarrow> number" where
  "unsigned_number ds =
     (if ds = [] then NaN
      else case digits_value 0 ds of None \<Rightarrow> NaN | Some n \<Rightarrow> Num (int n))"

fun negated :: "number \<Rightarrow> number" where
  "negated (Num i) = Num (- i)"
| "negated NaN = NaN"

definition toNumber :: "string option \<Rightarrow> number" where
  "toNumber v =
     (case v of
        None \<Rightarrow> Num 0
      | Some [] \<Rightarrow> Num 0
      | Some (c # cs) \<Rightarrow>
          (if c = CHR ''-'' then negated (unsigned_number cs)
           else if c = CHR ''+'' then unsigned_number cs
           else unsigned_number (c # cs)))"

text \<open>
  The texts on which \<open>toNumber\<close> is JavaScript's conversion and the sums formed from
  the results are exact in a double: no text (\<open>null\<close>), or a run of decimal digits
  with a value below \<open>2 ^ 52\<close>; and the natural number such a text denotes (\<open>decimal\<close>
  is 0 on \<open>null\<close>, on the empty string and on every other text).
\<close>

definition decimal :: "string option \<Rightarrow> nat" where
  "decimal v =
     (case v of
        None \<Rightarrow> 0
      | Some ds \<Rightarrow> (case digits_value 0 ds of None \<Rightarrow> 0 | Some n \<Rightarrow> n))"

definition small_decimal :: "string option \<Rightarrow> bool" where
  "small_decimal v =
     (case v of
        None \<Rightarrow> True
      | Some ds \<Rightarrow> (case digits_value 0 ds of None \<Rightarrow> False | Some n \<Rightarrow> n < 2 ^ 52))"

fun gt :: "number \<Rightarrow> number \<Rightarrow> bool" where
  "gt (Num a) (Num b) = (a > b)"
| "gt _ _ = False"

fun le :: "number \<Rightarrow> number \<Rightarrow> bool" where
  "le (Num a) (Num b) = (a \<le> b)"
| "le _ _ = False"

fun strict_eq :: "number \<Rightarrow> number \<Rightarrow> bool" where
  "strict_eq (Num a) (Num b) = (a = b)"
| "strict_eq _ _ = False"

fun add :: "number \<Rightarrow> number \<Rightarrow> number" where
  "add (Num a) (Num b) = Num (a + b)"
| "add _ _ = NaN"

text \<open>\<open>text.indexOf(part)\<close>: where \<open>part\<close> first occurs in \<open>text\<close>, or -1.\<close>

fun indexOf_from :: "nat \<Rightarrow> string \<Rightarrow> string \<Rightarrow> int" where
  "indexOf_from i [] part = (if part = [] then int i else -1)"
| "indexOf_from i (c # cs) part =
     (if take (length part) (c # cs) = part then int i else indexOf_from (Suc i) cs part)"

definition indexOf :: "string \<Rightarrow> string \<Rightarrow> int" where
  "indexOf t part = indexOf_from 0 t part"

section \<open>Page objects\<close>

text \<open>A page object built on an element it was handed.\<close>

record BasePage =
  elem :: ref

subsection \<open>ModalDialog\<close>

definition getButtons :: "BasePage \<Rightarrow> elem list async" where
  "getButtons this =
     await (find_one (elem this) L_buttonContainer) (\<lambda>container.
     find_all container L_button)"

definition pushButton :: "BasePage \<Rightarrow> string \<Rightarrow> unit async" where
  "pushButton this title =
     await (getButtons this) (\<lambda>buttons.
     await (promise_all (map (\<lambda>btn. getAttribute_call btn ''title'') buttons)) (\<lambda>titles.
     (let index = findIndex (\<lambda>v. v = Some title) titles in
      if index > -1 then method_on (at_index buttons index) click
      else resolve ())))"

subsection \<open>NotificationsCenter\<close>

datatype NotificationType = Info | Warning | Error | Any

datatype Notification = CenterNotification elem

text \<open>
  \<open>getNotifications\<close>: the loop over the rows, with the list built so far.
  \<open>Notification.getType\<close> is outside the sources: \<open>getType d e\<close> is what it answers for
  the notification over row \<open>e\<close> on page \<open>d\<close>.
\<close>

fun notification_rows ::
  "(dom \<Rightarrow> elem \<Rightarrow> error + NotificationType) \<Rightarrow> NotificationType \<Rightarrow> elem list \<Rightarrow>
   Notification list \<Rightarrow> Notification list async" where
  "notification_rows getType type [] notifications = resolve notifications"
| "notification_rows getType type (element # elements) notifications =
     (let not = CenterNotification element in
      await (if type = Any then resolve True
             else await (reading (\<lambda>d. getType d element)) (\<lambda>t. resolve (t = type))) (\<lambda>wanted.
      if wanted then
        await (issue (wait (Some element) not)) (\<lambda>n.
        notification_rows getType type elements (notifications @ [n]))
      else notification_rows getType type elements notifications))"

definition getNotifications ::
  "(dom \<Rightarrow> elem \<Rightarrow> error + NotificationType) \<Rightarrow> BasePage \<Rightarrow> NotificationType \<Rightarrow>
   Notification list async" where
  "getNotifications getType this type =
     await (find_all (elem this) L_row) (\<lambda>elements.
     notification_rows getType type elements [])"

subsection \<open>Source-control view\<close>

datatype ScmProvider =
    SingleScmProvider (base: ref) (view: BasePage)
  | MultiScmProvider (base: ref) (view: BasePage)

datatype ScmChange = ScmChange elem ScmProvider

definition getProviders :: "BasePage \<Rightarrow> ScmProvider list async" where
  "getProviders this =
     await (find_all (elem this) L_inputField) (\<lambda>inputs.
     if length inputs < 1 then resolve []
     else
       await (find_all (elem this) L_multiScmProvider) (\<lambda>providers.
       if length inputs = 1 \<and> length providers < 1 then
         await (find_one (elem this) L_singleScmProvider) (\<lambda>single.
         await (issue (wait single (SingleScmProvider single this))) (\<lambda>provider.
         resolve [provider]))
       else
         await (find_all (elem this) L_multiProviderItem) (\<lambda>elements.
         promise_all
           (map (\<lambda>element. wait (Some element) (MultiScmProvider (Some element) this))
              elements))))"

text \<open>The loop of \<open>getChanges\<close> over the rows of the child level.\<close>

fun rows_in_range :: "number \<Rightarrow> number \<Rightarrow> elem list \<Rightarrow> elem list \<Rightarrow> elem list async" where
  "rows_in_range startIndex count [] elements = resolve elements"
| "rows_in_range startIndex count (item # items) elements =
     await (getAttribute (Some item) ''data-index'') (\<lambda>a.
     (let index = toNumber a in
      rows_in_range startIndex count items
        (if gt index startIndex \<and> le index (add startIndex count)
         then elements @ [item] else elements)))"

definition changes_of :: "ScmProvider \<Rightarrow> elem list \<Rightarrow> ScmChange list async" where
  "changes_of this elements =
     promise_all (map (\<lambda>element. wait (Some element) (ScmChange element this)) elements)"

text \<open>
  \<open>SingleScmProvider.getChanges\<close>. \<open>getChangeCount\<close> is inherited from the base class
  \<open>ScmProvider\<close>, which is outside the sources: \<open>getChangeCount staged d\<close> is what it
  answers on page \<open>d\<close>.
\<close>

definition Single_getChanges ::
  "(bool \<Rightarrow> dom \<Rightarrow> error + number) \<Rightarrow> ScmProvider \<Rightarrow> bool \<Rightarrow> ScmChange list async" where
  "Single_getChanges getChangeCount this staged =
     await (reading (getChangeCount staged)) (\<lambda>count.
     await
       (if gt count (Num 0) then
          await (find_one (base this) (if staged then L_stagedChanges else L_changes)) (\<lambda>header.
          await (getAttribute header ''data-index'') (\<lambda>a.
          await (getAttribute header ''aria-level'') (\<lambda>l.
          (let startIndex = toNumber a; depth = add (toNumber l) (Num 1) in
           await (find_all (base this) (L_itemLevel depth)) (\<lambda>items.
           rows_in_range startIndex count items [])))))
        else resolve [])
       (changes_of this))"

text \<open>\<open>MultiScmProvider.getChangeCount\<close>: the loop over the header rows of the view.\<close>

fun count_from_rows :: "ScmProvider \<Rightarrow> elem list \<Rightarrow> number \<Rightarrow> elem list \<Rightarrow> number async" where
  "count_from_rows this rows index [] = resolve (Num 0)"
| "count_from_rows this rows index (row # rest) =
     await (getAttribute (Some row) ''data-index'') (\<lambda>a.
     if gt (toNumber a) index then
       await (method_on (at_index rows 0) (\<lambda>r. find_one (Some r) L_changeCount)) (\<lambda>count.
       await (getText count) (\<lambda>t.
       resolve (toNumber (Some t))))
     else count_from_rows this rows index rest)"

definition Multi_getChangeCount :: "ScmProvider \<Rightarrow> bool \<Rightarrow> number async" where
  "Multi_getChangeCount this staged =
     (let locator = (if staged then L_stagedChanges else L_changes) in
      await (find_all (elem (view this)) locator) (\<lambda>rows.
      await (getAttribute (base this) ''data-index'') (\<lambda>a.
      count_from_rows this rows (toNumber a) rows)))"

text \<open>The header loop of \<open>MultiScmProvider.getChanges\<close>: it has no \<open>break\<close>, so the last
  header below the provider wins.\<close>

fun header_after :: "number \<Rightarrow> elem list \<Rightarrow> ref \<Rightarrow> ref async" where
  "header_after index [] header = resolve header"
| "header_after index (item # headers) header =
     await (getAttribute (Some item) ''data-index'') (\<lambda>a.
     header_after index headers (if gt (toNumber a) index then Some item else header))"

definition Multi_getChanges :: "ScmProvider \<Rightarrow> bool \<Rightarrow> ScmChange list async" where
  "Multi_getChanges this staged =
     await (Multi_getChangeCount this staged) (\<lambda>count.
     if gt count (Num 0) then
       await (getAttribute (base this) ''data-index'') (\<lambda>a.
       await (find_all (base this) (if staged then L_stagedChanges else L_changes)) (\<lambda>headers.
       await (header_after (toNumber a) headers None) (\<lambda>header.
       if header = None then resolve []
       else
         await (getAttribute header ''data-index'') (\<lambda>b.
         await (getAttribute header ''aria-level'') (\<lambda>l.
         (let startIndex = toNumber b; depth = add (toNumber l) (Num 1) in
          await (find_all (elem (view this)) (L_itemLevel depth)) (\<lambda>items.
          await (rows_in_range startIndex count items []) (changes_of this))))))))
     else changes_of this [])"

definition Multi_takeAction :: "ScmProvider \<Rightarrow> string \<Rightarrow> bool async" where
  "Multi_takeAction this title =
     await (find_all (base this) L_action) (\<lambda>actions.
     await (promise_all (map (\<lambda>action. getAttribute_call action ''title'') actions)) (\<lambda>names.
     (let index = findIndex (\<lambda>item. item = Some title) names in
      if index > -1 then
        await (method_on (at_index actions index) click) (\<lambda>_. resolve True)
      else resolve False)))"

subsection \<open>QuickPickItem\<close>

text \<open>
  A quick pick item is built from an index: the base class gets the locator made from
  the index. The constructor's test \<open>input instanceof QuickOpenBox\<close> is on the imported
  locator table \<open>input\<close>, not on the input box handed in, so the locator is always
  \<open>quickPickIndex(index)\<close>. The field \<open>input\<close> is read by no method and is left out.
\<close>

record QuickPickItem =
  locator :: locator
  index :: number

definition new_QuickPickItem :: "number \<Rightarrow> QuickPickItem" where
  "new_QuickPickItem i = \<lparr>locator = L_quickPickIndex i, index = i\<rparr>"

text \<open>
  Modelled from the spec: \<open>BasePage\<close> and the decorator that makes the getters \<open>elem\<close>,
  \<open>quickPickLabel$\<close> and \<open>quickPickDescription$\<close> are outside the sources
  (\<open>../../utils\<close>). The spec says that an entity is backed by a live DOM element and
  that all state is re-derived from the DOM on each call. Accordingly every use of
  \<open>elem\<close> by an item looks the item's locator up in the document, and the getters look
  their own locator up below the element found.
\<close>

definition item_elem :: "QuickPickItem \<Rightarrow> ref async" where
  "item_elem this = find_in_document (locator this)"

definition getLabel :: "QuickPickItem \<Rightarrow> string async" where
  "getLabel this =
     await (item_elem this) (\<lambda>e.
     await (find_one e L_quickPickLabel) (\<lambda>label.
     getText label))"

text \<open>
  \<open>try { return P } catch (err) { H }\<close> in an async function, where \<open>P\<close> is a promise
  that is returned without \<open>await\<close>: the \<open>try\<close> block is left as soon as the promise
  exists, so \<open>catch\<close> sees only an exception thrown while \<open>P\<close> is being made (\<open>Inl\<close>
  here); a rejection of \<open>P\<close> itself becomes the rejection of the function.
\<close>

definition try_return :: "error + 'a async \<Rightarrow> (error \<Rightarrow> 'a async) \<Rightarrow> 'a async" where
  "try_return made handler = (case made of Inl err \<Rightarrow> handler err | Inr promise \<Rightarrow> promise)"

text \<open>\<open>try { return await P } catch (err) { H }\<close>, for comparison: \<open>catch\<close> sees the
  rejection.\<close>

definition try_await :: "'a async \<Rightarrow> (error \<Rightarrow> 'a async) \<Rightarrow> 'a async" where
  "try_await promise handler s =
     (case promise s of (Inl err, s') \<Rightarrow> handler err s' | (Inr x, s') \<Rightarrow> (Inr x, s'))"

definition getDescription :: "QuickPickItem \<Rightarrow> string option async" where
  "getDescription this =
     try_return
       (Inr (await (item_elem this) (\<lambda>e.
             await (find_one e L_quickPickDescription) (\<lambda>description.
             await (getText description) (\<lambda>t. resolve (Some t))))))
       (\<lambda>err. resolve None)"

definition getIndex :: "QuickPickItem \<Rightarrow> number" where
  "getIndex this = index this"


subsection \<open>Input\<close>

text \<open>\<open>getQuickPicks\<close> is abstract in \<open>Input\<close>; its implementations are outside the
  sources: the field is what it answers on a page.\<close>

record Input = BasePage +
  getQuickPicks :: "dom \<Rightarrow> error + QuickPickItem list"

datatype key = Text string | Index number

definition input_field :: "Input \<Rightarrow> ref async" where
  "input_field this =
     await (find_one (elem this) L_inputBox) (\<lambda>box. find_one box L_input)"

text \<open>\<open>.length\<close> of an attribute value: a TypeError on \<open>null\<close>.\<close>

definition value_length :: "string option \<Rightarrow> nat async" where
  "value_length v = (case v of None \<Rightarrow> reject TypeError | Some t \<Rightarrow> resolve (length t))"

definition Input_getText :: "Input \<Rightarrow> string option async" where
  "Input_getText this =
     await (input_field this) (\<lambda>input. getAttribute input ''value'')"

definition select_all_and_delete :: "ref \<Rightarrow> unit async" where
  "select_all_and_delete input =
     await (addValue input [''End'']) (\<lambda>_.
     await (addValue input [''Shift'', ''Home'']) (\<lambda>_.
     addValue input [''Backspace'']))"

definition clear :: "Input \<Rightarrow> unit async" where
  "clear this =
     await (input_field this) (\<lambda>input.
     await (select_all_and_delete input) (\<lambda>_.
     await (getAttribute input ''value'') (\<lambda>v.
     await (value_length v) (\<lambda>n.
     if n > 0 then select_all_and_delete input else resolve ()))))"

text \<open>\<open>setText\<close>; the pause of 200 ms after \<open>clear\<close> is real time and has no effect here.
  \<open>text\<close> is \<open>null\<close> when \<open>resetPosition\<close> read no value.\<close>

definition setText :: "Input \<Rightarrow> string option \<Rightarrow> unit async" where
  "setText this t =
     await (input_field this) (\<lambda>input.
     await (clear this) (\<lambda>_.
     await (Input_getText this) (\<lambda>v.
     await (value_length v) (\<lambda>n.
     await (if n > 0 then addValue input [''End'', ''Shift'', ''Home''] else resolve ()) (\<lambda>_.
     await (addValue input (case t of None \<Rightarrow> [] | Some txt \<Rightarrow> [txt])) (\<lambda>_.
     await (Input_getText this) (\<lambda>v'.
     if v' \<noteq> t then
       await (perform (ClipboardWrite (case t of None \<Rightarrow> [] | Some txt \<Rightarrow> txt))) (\<lambda>_.
       await (addValue input [''End'']) (\<lambda>_.
       await (addValue input [''Shift'', ''Home'']) (\<lambda>_.
       await (addValue input [''Control'', ''v'']) (\<lambda>_.
       perform (ClipboardWrite [])))))
     else resolve ())))))))"

definition resetPosition :: "Input \<Rightarrow> unit async" where
  "resetPosition this =
     await (Input_getText this) (\<lambda>t.
     await (clear this) (\<lambda>_.
     setText this t))"

definition toggleAllQuickPicks :: "Input \<Rightarrow> bool \<Rightarrow> unit async" where
  "toggleAllQuickPicks this state =
     await (find_all (elem this) L_quickPickSelectAll) (\<lambda>checkboxes.
     if int (length checkboxes) < 0 then resolve ()
     else
       await (method_on (at_index checkboxes 0) isSelected) (\<lambda>on.
       await (if \<not> on then method_on (at_index checkboxes 0) click else resolve ()) (\<lambda>_.
       if state = False then method_on (at_index checkboxes 0) click else resolve ())))"

text \<open>The \<open>for\<close> loop of \<open>findQuickPick\<close> over one batch of rendered picks: the pick
  returned, if any, and \<open>endReached\<close> as the loop leaves it.\<close>

fun scan_picks ::
  "Input \<Rightarrow> key \<Rightarrow> QuickPickItem list \<Rightarrow> bool \<Rightarrow> (QuickPickItem option \<times> bool) async" where
  "scan_picks this k [] endReached = resolve (None, endReached)"
| "scan_picks this k (pick # picks) endReached =
     await (find_all (elem this) L_lastRow) (\<lambda>lastRow.
     await
       (if length lastRow > 0 then resolve True
        else
          await (item_elem pick) (\<lambda>e.
          await (getAttribute e ''aria-posinset'') (\<lambda>pos.
          await (item_elem pick) (\<lambda>e'.
          await (getAttribute e' ''aria-setsize'') (\<lambda>size.
          resolve (if pos = size then True else endReached))))))
       (\<lambda>endReached'.
     await
       (case k of
          Text indexOrText \<Rightarrow>
            await (getLabel pick) (\<lambda>t. resolve (indexOf t indexOrText > -1))
        | Index indexOrText \<Rightarrow> resolve (strict_eq indexOrText (getIndex pick)))
       (\<lambda>found.
     if found then resolve (Some pick, endReached')
     else scan_picks this k picks endReached')))"

text \<open>The \<open>while\<close> loop of \<open>findQuickPick\<close>. It has no bound of its own: \<open>None\<close> is the
  loop that never ends.\<close>

partial_function (option) scroll_and_scan ::
  "Input \<Rightarrow> key \<Rightarrow> ref \<Rightarrow> session \<Rightarrow> ((error + QuickPickItem option) \<times> session) option" where
  "scroll_and_scan this k input s =
     (case await (reading (getQuickPicks this)) (\<lambda>picks. scan_picks this k picks False) s of
        (Inl err, s') \<Rightarrow> Some (Inl err, s')
      | (Inr (Some pick, endReached), s') \<Rightarrow> Some (Inr (Some pick), s')
      | (Inr (None, endReached), s') \<Rightarrow>
          (if \<not> endReached then
             (case addValue input [''PageDown''] s' of
                (Inl err, s'') \<Rightarrow> Some (Inl err, s'')
              | (Inr _, s'') \<Rightarrow> scroll_and_scan this k input s'')
           else Some (Inr None, s')))"

definition findQuickPick ::
  "Input \<Rightarrow> key \<Rightarrow> session \<Rightarrow> ((error + QuickPickItem option) \<times> session) option" where
  "findQuickPick this indexOrText s =
     (case await (input_field this) (\<lambda>input.
           await (find_all (elem this) (L_quickPickPosition (Num 1))) (\<lambda>first.
           await (if length first < 1 then resetPosition this else resolve ()) (\<lambda>_.
           resolve input))) s of
        (Inl err, s') \<Rightarrow> Some (Inl err, s')
      | (Inr input, s') \<Rightarrow> scroll_and_scan this indexOrText input s')"

definition Input_back :: "Input \<Rightarrow> bool async" where
  "Input_back this =
     await (find_all (elem this) L_titleBar) (\<lambda>titleBar.
     await (if length titleBar > 0 then method_on (at_index titleBar 0) isDisplayed
            else resolve False) (\<lambda>shown.
     if shown then
       await (method_on (at_index titleBar 0) (\<lambda>bar. find_all (Some bar) L_backButton)) (\<lambda>backBtn.
       await (if length backBtn > 0 then method_on (at_index backBtn 0) isEnabled
              else resolve False) (\<lambda>usable.
       if usable then await (method_on (at_index backBtn 0) click) (\<lambda>_. resolve True)
       else resolve False))
     else resolve False))"

section \<open>Reading a session\<close>

text \<open>
  \<open>peak n es\<close>: the largest number of commands in flight at any moment of the log \<open>es\<close>,
  when \<open>n\<close> are in flight before it; \<open>level n es\<close>: the number in flight after it.
\<close>

fun peak :: "nat \<Rightarrow> event list \<Rightarrow> nat" where
  "peak n [] = n"
| "peak n (Issued c # es) = max n (peak (Suc n) es)"
| "peak n (Settled c # es) = max n (peak (n - 1) es)"

fun level :: "nat \<Rightarrow> event list \<Rightarrow> nat" where
  "level n [] = n"
| "level n (Issued c # es) = level (Suc n) es"
| "level n (Settled c # es) = level (n - 1) es"

text \<open>A computation that leaves the application alone and adds no interaction.\<close>

definition read_only :: "'a async \<Rightarrow> bool" where
  "read_only m = (\<forall>s. world (snd (m s)) = world s \<and>
                      interactions (trace (snd (m s))) = interactions (trace s))"


text \<open>
  What \<open>findQuickPick\<close> reads for one pick on page \<open>d\<close>: the element its locator finds,
  its label, its end-of-list test (a last-row sentinel below the input box, or equal
  \<open>aria-posinset\<close> and \<open>aria-setsize\<close>) and its match against the search key.
  \<open>scan_result\<close> is the outcome of the \<open>for\<close> loop over a batch all of whose picks
  and labels are on the page.
\<close>

definition item_row :: "dom \<Rightarrow> QuickPickItem \<Rightarrow> ref" where
  "item_row d pick = first_match (matches d Document (locator pick))"

definition label_of :: "dom \<Rightarrow> QuickPickItem \<Rightarrow> string option" where
  "label_of d pick =
     (case item_row d pick of
        None \<Rightarrow> None
      | Some e \<Rightarrow>
          (case first_match (matches d (Below e) L_quickPickLabel) of
             None \<Rightarrow> None
           | Some l \<Rightarrow> Some (innerText d l)))"

definition end_seen :: "dom \<Rightarrow> elem \<Rightarrow> QuickPickItem \<Rightarrow> bool" where
  "end_seen d root pick =
     (matches d (Below root) L_lastRow \<noteq> [] \<or>
      (case item_row d pick of
         None \<Rightarrow> False
       | Some e \<Rightarrow> attributes d e ''aria-posinset'' = attributes d e ''aria-setsize''))"

definition is_match :: "dom \<Rightarrow> key \<Rightarrow> QuickPickItem \<Rightarrow> bool" where
  "is_match d k pick =
     (case k of
        Text t \<Rightarrow> (case label_of d pick of None \<Rightarrow> False | Some l \<Rightarrow> indexOf l t > -1)
      | Index i \<Rightarrow> strict_eq i (index pick))"

fun scan_result :: "dom \<Rightarrow> elem \<Rightarrow> key \<Rightarrow> QuickPickItem list \<Rightarrow> bool \<Rightarrow> QuickPickItem option \<times> bool" where
  "scan_result d root k [] e0 = (None, e0)"
| "scan_result d root k (pick # picks) e0 =
     (if is_match d k pick then (Some pick, e0 \<or> end_seen d root pick)
      else scan_result d root k picks (e0 \<or> end_seen d root pick))"

section \<open>Example pages\<close>

text \<open>An application that shows the same page whatever is done to it.\<close>

primcorec still :: "dom \<Rightarrow> world" where
  "page (still d) = d"
| "after (still d) = (\<lambda>a. still d)"

fun is_page_down :: "action \<Rightarrow> bool" where
  "is_page_down (AddValue e keys) = (keys = [''PageDown''])"
| "is_page_down _ = False"

text \<open>An application that shows the pages of a list one after the other: each
  \<open>PageDown\<close> moves to the next page, and the last page stays.\<close>

primcorec paged :: "dom \<Rightarrow> dom list \<Rightarrow> world" where
  "page (paged d ds) = d"
| "after (paged d ds) =
     (\<lambda>a. if is_page_down a \<and> ds \<noteq> [] then paged (hd ds) (tl ds) else paged d ds)"

definition blank :: dom where
  "blank =
     \<lparr>matches = (\<lambda>sc l. []), attributes = (\<lambda>e n. None), innerText = (\<lambda>e. []),
      displayed = (\<lambda>e. True), enabled = (\<lambda>e. True), selected = (\<lambda>e. False),
      appears = (\<lambda>r. r \<noteq> None)\<rparr>"

definition dialog_page :: dom where
  "dialog_page = blank
     \<lparr>matches := (\<lambda>sc l. if sc = Below 0 \<and> l = L_buttonContainer then [1]
                          else if sc = Below 1 \<and> l = L_button then [2, 3, 4] else []),
      attributes := (\<lambda>e n. if n = ''title'' \<and> e = 2 then Some ''Yes''
                          else if n = ''title'' \<and> (e = 3 \<or> e = 4) then Some ''No''
                          else None)\<rparr>"

definition scm_page :: dom where
  "scm_page = blank
     \<lparr>matches := (\<lambda>sc l.
        case map_of
          [((Below 0, L_changes), [11, 21]),
           ((Below 10, L_changes), [11]),
           ((Below 11, L_changeCount), [12]),
           ((Below 0, L_itemLevel (Num 3)), [13, 14, 23]),
           ((Below 30, L_changes), [31]),
           ((Below 30, L_itemLevel (Num 2)), [32, 33, 34]),
           ((Below 0, L_inputField), [40, 41]),
           ((Below 0, L_multiScmProvider), [42]),
           ((Below 0, L_multiProviderItem), [10, 20]),
           ((Below 50, L_inputField), [51]),
           ((Below 50, L_singleScmProvider), [30]),
           ((Below 10, L_action), [15, 16])] (sc, l) of
          None \<Rightarrow> [] | Some es \<Rightarrow> es),
      attributes := (\<lambda>e n.
        map_of
          [((10, ''data-index''), ''0''), ((20, ''data-index''), ''5''),
           ((11, ''data-index''), ''1''), ((11, ''aria-level''), ''2''),
           ((21, ''data-index''), ''6''), ((21, ''aria-level''), ''2''),
           ((13, ''data-index''), ''2''), ((14, ''data-index''), ''3''),
           ((23, ''data-index''), ''7''),
           ((31, ''data-index''), ''0''), ((31, ''aria-level''), ''1''),
           ((32, ''data-index''), ''1''), ((33, ''data-index''), ''2''),
           ((34, ''data-index''), ''3''),
           ((15, ''title''), ''Commit''), ((16, ''title''), ''Refresh'')] (e, n)),
      innerText := (\<lambda>e. if e = 12 then ''2'' else [])\<rparr>"

definition notifications_page :: dom where
  "notifications_page = blank
     \<lparr>matches := (\<lambda>sc l. if sc = Below 70 \<and> l = L_row then [71, 72, 73] else [])\<rparr>"

definition icon_type :: "dom \<Rightarrow> elem \<Rightarrow> error + NotificationType" where
  "icon_type d e = (if e = 72 then Inr Warning else Inr Info)"

definition picks_page :: dom where
  "picks_page = blank
     \<lparr>matches := (\<lambda>sc l.
        case map_of
          [((Document, L_quickPickIndex (Num 3)), [80]),
           ((Below 80, L_quickPickLabel), [81]),
           ((Below 90, L_inputBox), [91]),
           ((Below 91, L_input), [92]),
           ((Below 90, L_quickPickPosition (Num 1)), [93])] (sc, l) of
          None \<Rightarrow> [] | Some es \<Rightarrow> es),
      attributes := (\<lambda>e n.
        map_of [((80, ''aria-posinset''), ''4''), ((80, ''aria-setsize''), ''9'')] (e, n)),
      innerText := (\<lambda>e. if e = 81 then ''Open File'' else [])\<rparr>"



text \<open>
  The source-control page with the second provider (element 20) filled in: its header
  row 21 lies below it and carries its own badge, 1, and a second row (24) follows row
  23 at the child level.
\<close>

definition shared_count_page :: dom where
  "shared_count_page = scm_page
     \<lparr>matches := (\<lambda>sc l. if sc = Below 20 \<and> l = L_changes then [21]
                          else if sc = Below 21 \<and> l = L_changeCount then [22]
                          else if sc = Below 0 \<and> l = L_itemLevel (Num 3) then [13, 14, 23, 24]
                          else matches scm_page sc l),
      attributes := (\<lambda>e n. if e = 24 \<and> n = ''data-index'' then Some ''8''
                          else attributes scm_page e n),
      innerText := (\<lambda>e. if e = 22 then ''1'' else innerText scm_page e)\<rparr>"

definition last_page :: dom where
  "last_page = blank
     \<lparr>matches := (\<lambda>sc l.
        case map_of
          [((Document, L_quickPickIndex (Num 8)), [85]),
           ((Below 85, L_quickPickLabel), [86]),
           ((Below 90, L_inputBox), [91]),
           ((Below 91, L_input), [92])] (sc, l) of
          None \<Rightarrow> [] | Some es \<Rightarrow> es),
      attributes := (\<lambda>e n.
        map_of [((85, ''aria-posinset''), ''9''), ((85, ''aria-setsize''), ''9'')] (e, n)),
      innerText := (\<lambda>e. if e = 86 then ''Close Window'' else [])\<rparr>"

definition paged_input :: Input where
  "paged_input =
     \<lparr>elem = Some 90,
      getQuickPicks = (\<lambda>d. Inr (if matches d Document (L_quickPickIndex (Num 3)) \<noteq> []
                                 then [new_QuickPickItem (Num 3)]
                                 else [new_QuickPickItem (Num 8)]))\<rparr>"

section \<open>Helper lemmas\<close>

lemmas number_defs = toNumber_def unsigned_number_def digit_value_def

lemmas page_defs = picks_page_def blank_def first_match_def

lemma toNumber_decimal:
  assumes "small_decimal v"
  shows "toNumber v = Num (int (decimal v))"
proof (cases v)
  case None
  then show ?thesis by (simp add: toNumber_def decimal_def)
next
  case (Some ds)
  show ?thesis
  proof (cases ds)
    case Nil
    with Some show ?thesis by (simp add: toNumber_def decimal_def)
  next
    case (Cons c cs)
    from assms Some Cons obtain n where n: "digits_value 0 (c # cs) = Some n"
      by (auto simp: small_decimal_def split: option.splits)
    then have "digit_value c \<noteq> None"
      by (auto split: option.splits)
    then have "c \<noteq> CHR ''-''" "c \<noteq> CHR ''+''"
      by (auto simp: digit_value_def)
    with Some Cons n show ?thesis
      by (simp add: toNumber_def unsigned_number_def decimal_def)
  qed
qed

lemma first_match_in: "first_match es = Some c \<Longrightarrow> c \<in> set es"
  by (cases es) (simp_all add: first_match_def)

lemma interactions_append: "interactions (xs @ ys) = interactions xs @ interactions ys"
  by (induction xs rule: interactions.induct) simp_all

lemma interactions_issued_reads:
  "interactions (map (\<lambda>c. Issued (GetAttribute (f c) n)) cs) = []"
  by (induction cs) simp_all

lemma interactions_settled: "interactions (map (\<lambda>c. Settled (g c)) cs) = []"
  by (induction cs) simp_all

lemma collect_resolved: "collect (map (\<lambda>x. Inr (g x)) xs) = Inr (map g xs)"
  by (induction xs) simp_all

lemma findIndex_ge: "findIndex p xs \<ge> -1"
  by (induction xs) (simp_all add: Let_def)

lemma findIndex_none: "(findIndex p xs = -1) = (\<forall>x\<in>set xs. \<not> p x)"
proof (induction xs)
  case Nil
  show ?case by simp
next
  case (Cons x xs)
  have "findIndex p xs \<ge> -1" by (rule findIndex_ge)
  with Cons show ?case by (auto simp: Let_def)
qed

lemma at_index_findIndex:
  "at_index xs (findIndex q (map f xs)) = List.find (\<lambda>x. q (f x)) xs"
proof (induction xs)
  case Nil
  then show ?case by (simp add: at_index_def)
next
  case (Cons x xs)
  show ?case
  proof (cases "q (f x)")
    case True
    then show ?thesis by (simp add: at_index_def)
  next
    case False
    have ge: "findIndex q (map f xs) \<ge> -1" by (rule findIndex_ge)
    show ?thesis
    proof (cases "findIndex q (map f xs) = -1")
      case True
      with False Cons show ?thesis by (simp add: at_index_def Let_def)
    next
      case F2: False
      with ge have pos: "0 \<le> findIndex q (map f xs)" by simp
      with False F2 Cons show ?thesis
        by (auto simp add: at_index_def Let_def nat_add_distrib)
    qed
  qed
qed

lemma findIndex_found:
  "(findIndex q (map f xs) > -1) = (List.find (\<lambda>x. q (f x)) xs \<noteq> None)"
  using findIndex_ge [of q "map f xs"] findIndex_none [of q "map f xs"]
  by (auto simp: find_None_iff)

section \<open>ModalDialog.pushButton\<close>

lemma getButtons_reads:
  assumes "getButtons this s = (Inr buttons, s1)"
  shows "world s1 = world s" and "interactions (trace s1) = interactions (trace s)"
  using assms
  by (auto simp: getButtons_def await_def find_one_def find_all_def issue_def reject_def
      interactions_append split: option.splits prod.splits sum.splits)

text \<open>
  Claim C7. Let \<open>getButtons\<close> resolve to the list \<open>buttons\<close>. Then \<open>pushButton title\<close>
  resolves (it raises nothing), and the interactions it adds to the session are: one
  click on the first button, in DOM order, whose \<open>title\<close> attribute equals \<open>title\<close>,
  or nothing when no button has that title. The application has moved by exactly that
  click, or not at all.
\<close>

theorem C7_pushButton:
  assumes "getButtons this s = (Inr buttons, s1)"
  shows "fst (pushButton this title s) = Inr () \<and>
         interactions (trace (snd (pushButton this title s))) =
           interactions (trace s) @
           (case List.find (\<lambda>b. attributes (page (world s)) b ''title'' = Some title) buttons of
              None \<Rightarrow> [] | Some b \<Rightarrow> [Click b]) \<and>
         world (snd (pushButton this title s)) =
           (case List.find (\<lambda>b. attributes (page (world s)) b ''title'' = Some title) buttons of
              None \<Rightarrow> world s | Some b \<Rightarrow> after (world s) (Click b))"
proof -
  let ?d = "page (world s)"
  let ?hit = "List.find (\<lambda>b. attributes ?d b ''title'' = Some title) buttons"
  note rd = getButtons_reads [OF assms]
  have titles: "promise_all (map (\<lambda>btn. getAttribute_call btn ''title'') buttons) s1 =
        (Inr (map (\<lambda>b. attributes ?d b ''title'') buttons),
         s1\<lparr>trace := trace s1 @ map (\<lambda>b. Issued (GetAttribute b ''title'')) buttons
                              @ map (\<lambda>b. Settled (GetAttribute b ''title'')) buttons\<rparr>)"
    by (simp add: promise_all_def getAttribute_call_def rd comp_def collect_resolved)
  show ?thesis
  proof (cases ?hit)
    case None
    then have "\<not> findIndex (\<lambda>v. v = Some title) (map (\<lambda>b. attributes ?d b ''title'') buttons) > -1"
      by (simp add: findIndex_found)
    with None show ?thesis
      by (simp add: pushButton_def await_def assms titles resolve_def rd
          interactions_append interactions_issued_reads interactions_settled)
  next
    case (Some b)
    then have "findIndex (\<lambda>v. v = Some title) (map (\<lambda>b. attributes ?d b ''title'') buttons) > -1"
      by (simp add: findIndex_found)
    moreover have "at_index buttons (findIndex (\<lambda>v. v = Some title)
        (map (\<lambda>b. attributes ?d b ''title'') buttons)) = Some b"
      using Some by (simp add: at_index_findIndex)
    ultimately show ?thesis using Some
      by (simp add: pushButton_def await_def assms titles method_on_def click_def perform_def rd
          interactions_append interactions_issued_reads interactions_settled)
  qed
qed

theorem C7_pushButton_witness:
  "getButtons \<lparr>elem = Some 0\<rparr> \<lparr>world = still dialog_page, trace = []\<rparr> =
     (Inr [2, 3, 4],
      \<lparr>world = still dialog_page,
       trace = [Issued (FindOne (Below 0) L_buttonContainer),
                Settled (FindOne (Below 0) L_buttonContainer),
                Issued (FindAll (Below 1) L_button), Settled (FindAll (Below 1) L_button)]\<rparr>) \<and>
   fst (pushButton \<lparr>elem = Some 0\<rparr> ''No'' \<lparr>world = still dialog_page, trace = []\<rparr>) = Inr () \<and>
   interactions (trace (snd (pushButton \<lparr>elem = Some 0\<rparr> ''No''
     \<lparr>world = still dialog_page, trace = []\<rparr>))) = [Click 3]"
proof -
  have h: "getButtons \<lparr>elem = Some 0\<rparr> \<lparr>world = still dialog_page, trace = []\<rparr> =
     (Inr [2, 3, 4],
      \<lparr>world = still dialog_page,
       trace = [Issued (FindOne (Below 0) L_buttonContainer),
                Settled (FindOne (Below 0) L_buttonContainer),
                Issued (FindAll (Below 1) L_button), Settled (FindAll (Below 1) L_button)]\<rparr>)"
    by (simp add: getButtons_def await_def find_one_def find_all_def issue_def first_match_def
        dialog_page_def blank_def)
  show ?thesis
    using h C7_pushButton [OF h, of "''No''"]
    by (simp add: dialog_page_def blank_def)
qed

section \<open>Input.toggleAllQuickPicks\<close>

text \<open>
  Claim C10. The guard \<open>checkboxes.length < 0\<close> is false for every list, so the method
  is the same computation as the one without the guard: after the query it always
  calls \<open>isSelected\<close> on \<open>checkboxes[0]\<close>. When the query finds no select-all checkbox,
  that element is \<open>undefined\<close> and the call rejects with a TypeError right after the
  query; the method is no silent no-op.
\<close>

theorem C10_toggleAllQuickPicks:
  assumes "elem this = Some root"
    and "matches (page (world s)) (Below root) L_quickPickSelectAll = []"
  shows "toggleAllQuickPicks this state =
           await (find_all (elem this) L_quickPickSelectAll) (\<lambda>checkboxes.
           await (method_on (at_index checkboxes 0) isSelected) (\<lambda>on.
           await (if \<not> on then method_on (at_index checkboxes 0) click else resolve ()) (\<lambda>_.
           if state = False then method_on (at_index checkboxes 0) click else resolve ()))) \<and>
         toggleAllQuickPicks this state s =
           (Inl TypeError,
            s\<lparr>trace := trace s @ [Issued (FindAll (Below root) L_quickPickSelectAll),
                                   Settled (FindAll (Below root) L_quickPickSelectAll)]\<rparr>)"
proof
  show "toggleAllQuickPicks this state =
           await (find_all (elem this) L_quickPickSelectAll) (\<lambda>checkboxes.
           await (method_on (at_index checkboxes 0) isSelected) (\<lambda>on.
           await (if \<not> on then method_on (at_index checkboxes 0) click else resolve ()) (\<lambda>_.
           if state = False then method_on (at_index checkboxes 0) click else resolve ())))"
    by (simp add: toggleAllQuickPicks_def)
  show "toggleAllQuickPicks this state s =
           (Inl TypeError,
            s\<lparr>trace := trace s @ [Issued (FindAll (Below root) L_quickPickSelectAll),
                                   Settled (FindAll (Below root) L_quickPickSelectAll)]\<rparr>)"
    using assms
    by (simp add: toggleAllQuickPicks_def await_def find_all_def issue_def method_on_def
        at_index_def reject_def)
qed

theorem C10_toggleAllQuickPicks_witness:
  "matches (page (world \<lparr>world = still blank, trace = []\<rparr>)) (Below 0) L_quickPickSelectAll = [] \<and>
   toggleAllQuickPicks \<lparr>elem = Some 0, getQuickPicks = (\<lambda>d. Inr [])\<rparr> True
       \<lparr>world = still blank, trace = []\<rparr> =
     (Inl TypeError,
      \<lparr>world = still blank,
       trace = [Issued (FindAll (Below 0) L_quickPickSelectAll),
                Settled (FindAll (Below 0) L_quickPickSelectAll)]\<rparr>)"
  using C10_toggleAllQuickPicks
    [of "\<lparr>elem = Some 0, getQuickPicks = (\<lambda>d. Inr [])\<rparr>" 0 "\<lparr>world = still blank, trace = []\<rparr>" True,
      THEN conjunct2]
  by (simp add: blank_def)

section \<open>The source-control providers\<close>

lemma count_from_rows_fst:
  assumes "rest \<noteq> [] \<Longrightarrow> rows \<noteq> []" and "page (world s) = d"
  shows "fst (count_from_rows this rows idx rest s) =
     (if \<exists>row\<in>set rest. gt (toNumber (attributes d row ''data-index'')) idx
      then (case first_match (matches d (Below (hd rows)) L_changeCount) of
              None \<Rightarrow> Inl NoSuchElement
            | Some c \<Rightarrow> Inr (toNumber (Some (innerText d c))))
      else Inr (Num 0))"
  using assms
proof (induction rest arbitrary: s)
  case Nil
  show ?case by (simp add: resolve_def)
next
  case (Cons row rest)
  then have ne: "rows \<noteq> []" by simp
  then have first: "at_index rows 0 = Some (hd rows)"
    by (cases rows) (simp_all add: at_index_def)
  note d = \<open>page (world s) = d\<close>
  show ?case
  proof (cases "gt (toNumber (attributes d row ''data-index'')) idx")
    case True
    then show ?thesis
      by (simp add: await_def getAttribute_def getAttribute_call_def issue_def first method_on_def
          find_one_def getText_def reject_def resolve_def d split: option.splits)
  next
    case False
    then show ?thesis
      using Cons.IH [of "s\<lparr>trace := trace s @ [Issued (GetAttribute row ''data-index''),
          Settled (GetAttribute row ''data-index'')]\<rparr>"] ne
      by (simp add: await_def getAttribute_def getAttribute_call_def issue_def d)
  qed
qed

lemma count_from_rows_world:
  "world (snd (count_from_rows this rows idx rest s)) = world s"
proof (induction rest arbitrary: s)
  case Nil
  show ?case by (simp add: resolve_def)
next
  case (Cons row rest)
  show ?case
    using Cons.IH
    by (simp add: await_def getAttribute_def getAttribute_call_def issue_def method_on_def
        find_one_def getText_def reject_def resolve_def split: option.splits sum.splits)
qed

lemma Multi_getChangeCount_result:
  assumes "base this = Some p" and "elem (view this) = Some v" and "page (world s) = d"
  shows "fst (Multi_getChangeCount this staged s) =
     (let rows = matches d (Below v) (if staged then L_stagedChanges else L_changes);
          idx = toNumber (attributes d p ''data-index'')
      in if \<exists>row\<in>set rows. gt (toNumber (attributes d row ''data-index'')) idx
         then (case first_match (matches d (Below (hd rows)) L_changeCount) of
                 None \<Rightarrow> Inl NoSuchElement
               | Some c \<Rightarrow> Inr (toNumber (Some (innerText d c))))
         else Inr (Num 0))"
  using assms
  by (simp add: Multi_getChangeCount_def Let_def await_def find_all_def issue_def
      getAttribute_def getAttribute_call_def count_from_rows_fst [where d = d])

lemma Multi_getChangeCount_world:
  "world (snd (Multi_getChangeCount this staged s)) = world s"
  by (simp add: Multi_getChangeCount_def Let_def await_def find_all_def issue_def reject_def
      getAttribute_def getAttribute_call_def count_from_rows_world
      split: option.splits sum.splits prod.splits)

text \<open>
  Claim C9. For a provider over element \<open>p\<close> in a view over element \<open>v\<close>, on a page \<open>d\<close>
  whose \<open>data-index\<close> attributes and change-count texts are decimal numerals
  (\<open>small_decimal\<close>): let \<open>rows\<close> be the staged (or unstaged) header rows of the view. If
  some row of \<open>rows\<close> has a \<open>data-index\<close> greater than the provider's, \<open>getChangeCount\<close>
  answers with the number read from the text of the change-count element of the first
  row, \<open>rows[0]\<close>, whichever row passed the comparison (and rejects if that row has no
  such element); if no row has a greater \<open>data-index\<close>, it resolves to 0.
\<close>

theorem C9_getChangeCount:
  assumes "base this = Some p" and "elem (view this) = Some v" and "page (world s) = d"
    and "\<forall>e. small_decimal (attributes d e ''data-index'')"
    and "\<forall>e. \<forall>c\<in>set (matches d (Below e) L_changeCount). small_decimal (Some (innerText d c))"
  shows "fst (Multi_getChangeCount this staged s) =
     (let rows = matches d (Below v) (if staged then L_stagedChanges else L_changes)
      in if \<exists>row\<in>set rows. decimal (attributes d row ''data-index'') >
                              decimal (attributes d p ''data-index'')
         then (case first_match (matches d (Below (hd rows)) L_changeCount) of
                 None \<Rightarrow> Inl NoSuchElement
               | Some c \<Rightarrow> Inr (Num (int (decimal (Some (innerText d c))))))
         else Inr (Num 0))"
proof -
  have badge: "toNumber (Some (innerText d c)) = Num (int (decimal (Some (innerText d c))))"
    if "first_match (matches d (Below e) L_changeCount) = Some c" for e c
    using that assms(5) by (auto intro!: toNumber_decimal dest: first_match_in)
  show ?thesis
    using assms(4) Multi_getChangeCount_result [OF assms(1,2,3), of staged]
    by (auto simp add: Let_def toNumber_decimal badge split: option.splits)
qed

theorem C9_getChangeCount_witness:
  "matches scm_page (Below 0) L_changes = [11, 21] \<and>
   decimal (attributes scm_page 20 ''data-index'') = 5 \<and>
   decimal (attributes scm_page 11 ''data-index'') = 1 \<and>
   decimal (attributes scm_page 21 ''data-index'') = 6 \<and>
   matches scm_page (Below 11) L_changeCount = [12] \<and>
   innerText scm_page 12 = ''2'' \<and>
   fst (Multi_getChangeCount (MultiScmProvider (Some 20) \<lparr>elem = Some 0\<rparr>) False
         \<lparr>world = still scm_page, trace = []\<rparr>) = Inr (Num 2)"
proof -
  have idx: "\<forall>e. small_decimal (attributes scm_page e ''data-index'')"
    by (simp add: scm_page_def blank_def small_decimal_def digit_value_def)
  have badges: "\<forall>e. \<forall>c\<in>set (matches scm_page (Below e) L_changeCount).
      small_decimal (Some (innerText scm_page c))"
    by (simp add: scm_page_def blank_def small_decimal_def digit_value_def)
  show ?thesis
    using C9_getChangeCount [of "MultiScmProvider (Some 20) \<lparr>elem = Some 0\<rparr>" 20 0
      "\<lparr>world = still scm_page, trace = []\<rparr>" scm_page False, OF _ _ _ idx badges]
    by (simp add: scm_page_def blank_def first_match_def decimal_def digit_value_def)
qed

lemma rows_in_range_result:
  assumes "page (world s) = d"
  shows "fst (rows_in_range start cnt items acc s) =
           Inr (acc @ filter (\<lambda>i. gt (toNumber (attributes d i ''data-index'')) start \<and>
                                  le (toNumber (attributes d i ''data-index'')) (add start cnt)) items)
         \<and> world (snd (rows_in_range start cnt items acc s)) = world s"
  using assms
proof (induction items arbitrary: s acc)
  case Nil
  show ?case by (simp add: resolve_def)
next
  case (Cons item items)
  note d = \<open>page (world s) = d\<close>
  let ?s1 = "s\<lparr>trace := trace s @ [Issued (GetAttribute item ''data-index''),
          Settled (GetAttribute item ''data-index'')]\<rparr>"
  have s1: "page (world ?s1) = d" using d by simp
  show ?case
    using Cons.IH [OF s1]
    by (simp add: await_def getAttribute_def getAttribute_call_def issue_def d Let_def)
qed

lemma collect_all_ok:
  "\<forall>x\<in>set xs. ok x \<Longrightarrow> collect (map (\<lambda>x. if ok x then Inr (g x) else Inl e) xs) = Inr (map g xs)"
  by (induction xs) simp_all

lemma changes_of_result:
  assumes "page (world s) = d" and "\<forall>e\<in>set elements. appears d (Some e)"
  shows "fst (changes_of this elements s) = Inr (map (\<lambda>e. ScmChange e this) elements)"
  using assms
  by (simp add: changes_of_def promise_all_def wait_def comp_def collect_all_ok)

lemma Single_getChanges_result:
  assumes d: "page (world s) = d"
    and ap: "\<forall>e. appears d (Some e)"
    and p: "base this = Some p"
    and c: "getChangeCount staged d = Inr cnt"
    and h: "first_match (matches d (Below p) (if staged then L_stagedChanges else L_changes)) = Some h"
  shows "fst (Single_getChanges getChangeCount this staged s) =
     Inr (map (\<lambda>e. ScmChange e this)
       (if gt cnt (Num 0) then
          filter (\<lambda>i. gt (toNumber (attributes d i ''data-index''))
                        (toNumber (attributes d h ''data-index'')) \<and>
                      le (toNumber (attributes d i ''data-index''))
                        (add (toNumber (attributes d h ''data-index'')) cnt))
            (matches d (Below p) (L_itemLevel (add (toNumber (attributes d h ''aria-level'')) (Num 1))))
        else []))"
proof (cases "gt cnt (Num 0)")
  case False
  then show ?thesis
    using d ap c
    by (simp add: Single_getChanges_def await_def reading_def resolve_def changes_of_result [where d = d])
next
  case True
  then show ?thesis
    using d ap c p h
    by (simp add: Single_getChanges_def await_def reading_def find_one_def find_all_def issue_def
        getAttribute_def getAttribute_call_def Let_def split_beta
        rows_in_range_result [where d = d] changes_of_result [where d = d])
qed

lemma header_after_result:
  assumes "page (world s) = d"
  shows "fst (header_after idx headers h0 s) =
           Inr (case filter (\<lambda>h. gt (toNumber (attributes d h ''data-index'')) idx) headers of
                  [] \<Rightarrow> h0 | h # hs \<Rightarrow> Some (last (h # hs)))
         \<and> world (snd (header_after idx headers h0 s)) = world s"
  using assms
proof (induction headers arbitrary: s h0)
  case Nil
  show ?case by (simp add: resolve_def)
next
  case (Cons item headers)
  note d = \<open>page (world s) = d\<close>
  let ?s1 = "s\<lparr>trace := trace s @ [Issued (GetAttribute item ''data-index''),
          Settled (GetAttribute item ''data-index'')]\<rparr>"
  have s1: "page (world ?s1) = d" using d by simp
  show ?case
    using Cons.IH [OF s1]
    by (simp add: await_def getAttribute_def getAttribute_call_def issue_def d split: list.splits)
qed

lemma Multi_getChanges_result:
  assumes d: "page (world s) = d"
    and ap: "\<forall>e. appears d (Some e)"
    and q: "base this = Some q"
    and v: "elem (view this) = Some v"
    and c: "fst (Multi_getChangeCount this staged s) = Inr cnt"
  shows "fst (Multi_getChanges this staged s) =
     Inr (map (\<lambda>e. ScmChange e this)
       (if gt cnt (Num 0) then
          (case filter (\<lambda>h. gt (toNumber (attributes d h ''data-index''))
                             (toNumber (attributes d q ''data-index'')))
                  (matches d (Below q) (if staged then L_stagedChanges else L_changes)) of
             [] \<Rightarrow> []
           | h # hs \<Rightarrow>
               filter (\<lambda>i. gt (toNumber (attributes d i ''data-index''))
                             (toNumber (attributes d (last (h # hs)) ''data-index'')) \<and>
                           le (toNumber (attributes d i ''data-index''))
                             (add (toNumber (attributes d (last (h # hs)) ''data-index'')) cnt))
                 (matches d (Below v)
                    (L_itemLevel (add (toNumber (attributes d (last (h # hs)) ''aria-level'')) (Num 1)))))
        else []))"
proof -
  obtain s1 where step: "Multi_getChangeCount this staged s = (Inr cnt, s1)"
    using c by (cases "Multi_getChangeCount this staged s") simp
  have "world s1 = world s"
    using Multi_getChangeCount_world [of this staged s] by (simp add: step)
  then have s1: "page (world s1) = d"
    using d by simp
  show ?thesis
  proof (cases "gt cnt (Num 0)")
    case False
    then show ?thesis
      using s1 ap
      by (simp add: Multi_getChanges_def await_def step changes_of_result [where d = d])
  next
    case True
    show ?thesis
    proof (cases "filter (\<lambda>h. gt (toNumber (attributes d h ''data-index''))
                             (toNumber (attributes d q ''data-index'')))
                  (matches d (Below q) (if staged then L_stagedChanges else L_changes))")
      case Nil
      with True show ?thesis
        using s1 ap q v
        by (simp add: Multi_getChanges_def await_def step find_all_def issue_def
          getAttribute_def getAttribute_call_def Let_def split_beta resolve_def
          header_after_result [where d = d])
    next
      case (Cons h hs)
      with True show ?thesis
        using s1 ap q v
        by (simp add: Multi_getChanges_def await_def step find_all_def issue_def
          getAttribute_def getAttribute_call_def Let_def split_beta
          header_after_result [where d = d]
          rows_in_range_result [where d = d] changes_of_result [where d = d])
    qed
  qed
qed

text \<open>
  Claim C2. On a page \<open>d\<close> where every row can be waited for and the \<open>data-index\<close> and
  \<open>aria-level\<close> attributes are decimal numerals (\<open>small_decimal\<close>), with \<open>count\<close> the
  number that \<open>getChangeCount\<close> resolves to for the staged flag (an integer of absolute
  value below \<open>2 ^ 52\<close>):

  \<^item> \<open>SingleScmProvider.getChanges\<close>, whose header row is \<open>h\<close>, resolves to the changes
    over exactly those rows of the child level (\<open>aria-level\<close> of \<open>h\<close> plus 1), in DOM
    order, whose \<open>data-index\<close> \<open>i\<close> satisfies \<open>startIndex < i\<close> and
    \<open>i \<le> startIndex + count\<close>, \<open>startIndex\<close> being the \<open>data-index\<close> of \<open>h\<close>, when
    \<open>count\<close> is positive, and to the empty list otherwise. \<open>getChangeCount\<close> of the base
    class is outside the sources and is a parameter.
  \<^item> \<open>MultiScmProvider.getChanges\<close> does the same with the header row it picks: the
    last header of the provider whose \<open>data-index\<close> is greater than the provider's. When
    no header is, or \<open>count\<close> is not positive, the result is empty. Here \<open>count\<close> is what
    \<open>MultiScmProvider.getChangeCount\<close> resolves to, which by claim C9 is the badge of
    the first header row of the whole view, \<open>rows[0]\<close>, and not the badge of the header
    row picked: in the example a second provider whose own badge reads 1 gets the two
    rows that the first provider's badge, 2, allows.
\<close>

theorem C2_getChanges:
  assumes "page (world s) = d"
    and "\<forall>e. appears d (Some e)"
    and "\<forall>e. small_decimal (attributes d e ''data-index'')"
    and "\<forall>e. small_decimal (attributes d e ''aria-level'')"
    and "base single = Some p"
    and "getChangeCount staged d = Inr (Num cnt)" and "\<bar>cnt\<bar> < 2 ^ 52"
    and "first_match (matches d (Below p) (if staged then L_stagedChanges else L_changes)) = Some h"
    and "base multi = Some q"
    and "elem (view multi) = Some v"
    and "fst (Multi_getChangeCount multi staged s) = Inr (Num mcnt)" and "\<bar>mcnt\<bar> < 2 ^ 52"
  shows "fst (Single_getChanges getChangeCount single staged s) =
     Inr (map (\<lambda>e. ScmChange e single)
       (if 0 < cnt then
          filter (\<lambda>i. int (decimal (attributes d h ''data-index'')) <
                        int (decimal (attributes d i ''data-index'')) \<and>
                      int (decimal (attributes d i ''data-index'')) \<le>
                        int (decimal (attributes d h ''data-index'')) + cnt)
            (matches d (Below p)
               (L_itemLevel (Num (int (decimal (attributes d h ''aria-level'')) + 1))))
        else [])) \<and>
    fst (Multi_getChanges multi staged s) =
     Inr (map (\<lambda>e. ScmChange e multi)
       (if 0 < mcnt then
          (case filter (\<lambda>h. decimal (attributes d q ''data-index'') <
                             decimal (attributes d h ''data-index''))
                  (matches d (Below q) (if staged then L_stagedChanges else L_changes)) of
             [] \<Rightarrow> []
           | h # hs \<Rightarrow>
               filter (\<lambda>i. int (decimal (attributes d (last (h # hs)) ''data-index'')) <
                             int (decimal (attributes d i ''data-index'')) \<and>
                           int (decimal (attributes d i ''data-index'')) \<le>
                             int (decimal (attributes d (last (h # hs)) ''data-index'')) + mcnt)
                 (matches d (Below v)
                    (L_itemLevel
                       (Num (int (decimal (attributes d (last (h # hs)) ''aria-level'')) + 1)))))
        else []))"
proof
  show "fst (Single_getChanges getChangeCount single staged s) =
     Inr (map (\<lambda>e. ScmChange e single)
       (if 0 < cnt then
          filter (\<lambda>i. int (decimal (attributes d h ''data-index'')) <
                        int (decimal (attributes d i ''data-index'')) \<and>
                      int (decimal (attributes d i ''data-index'')) \<le>
                        int (decimal (attributes d h ''data-index'')) + cnt)
            (matches d (Below p)
               (L_itemLevel (Num (int (decimal (attributes d h ''aria-level'')) + 1))))
        else []))"
    using assms(3,4)
      Single_getChanges_result [where getChangeCount = getChangeCount and staged = staged,
        OF assms(1,2,5,6,8)]
    by (simp add: toNumber_decimal cong: if_cong)
  show "fst (Multi_getChanges multi staged s) =
     Inr (map (\<lambda>e. ScmChange e multi)
       (if 0 < mcnt then
          (case filter (\<lambda>h. decimal (attributes d q ''data-index'') <
                             decimal (attributes d h ''data-index''))
                  (matches d (Below q) (if staged then L_stagedChanges else L_changes)) of
             [] \<Rightarrow> []
           | h # hs \<Rightarrow>
               filter (\<lambda>i. int (decimal (attributes d (last (h # hs)) ''data-index'')) <
                             int (decimal (attributes d i ''data-index'')) \<and>
                           int (decimal (attributes d i ''data-index'')) \<le>
                             int (decimal (attributes d (last (h # hs)) ''data-index'')) + mcnt)
                 (matches d (Below v)
                    (L_itemLevel
                       (Num (int (decimal (attributes d (last (h # hs)) ''aria-level'')) + 1)))))
        else []))"
    using assms(3,4) Multi_getChanges_result [OF assms(1,2,9,10,11)]
    by (simp add: toNumber_decimal cong: if_cong list.case_cong)
qed

theorem C2_getChanges_witness:
  "fst (Single_getChanges (\<lambda>staged d. Inr (Num 2)) (SingleScmProvider (Some 30) \<lparr>elem = Some 50\<rparr>)
          False \<lparr>world = still shared_count_page, trace = []\<rparr>) =
     Inr [ScmChange 32 (SingleScmProvider (Some 30) \<lparr>elem = Some 50\<rparr>),
          ScmChange 33 (SingleScmProvider (Some 30) \<lparr>elem = Some 50\<rparr>)] \<and>
   matches shared_count_page (Below 0) L_changes = [11, 21] \<and>
   matches shared_count_page (Below 20) L_changes = [21] \<and>
   innerText shared_count_page 12 = ''2'' \<and>
   matches shared_count_page (Below 21) L_changeCount = [22] \<and>
   innerText shared_count_page 22 = ''1'' \<and>
   fst (Multi_getChangeCount (MultiScmProvider (Some 20) \<lparr>elem = Some 0\<rparr>) False
         \<lparr>world = still shared_count_page, trace = []\<rparr>) = Inr (Num 2) \<and>
   fst (Multi_getChanges (MultiScmProvider (Some 20) \<lparr>elem = Some 0\<rparr>)
          False \<lparr>world = still shared_count_page, trace = []\<rparr>) =
     Inr [ScmChange 23 (MultiScmProvider (Some 20) \<lparr>elem = Some 0\<rparr>),
          ScmChange 24 (MultiScmProvider (Some 20) \<lparr>elem = Some 0\<rparr>)]"
proof -
  have c: "fst (Multi_getChangeCount (MultiScmProvider (Some 20) \<lparr>elem = Some 0\<rparr>) False
         \<lparr>world = still shared_count_page, trace = []\<rparr>) = Inr (Num 2)"
    using Multi_getChangeCount_result [of "MultiScmProvider (Some 20) \<lparr>elem = Some 0\<rparr>" 20 0
      "\<lparr>world = still shared_count_page, trace = []\<rparr>" shared_count_page False]
    by (simp add: shared_count_page_def scm_page_def blank_def first_match_def number_defs)
  have a: "\<forall>e. appears shared_count_page (Some e)"
    by (simp add: shared_count_page_def scm_page_def blank_def)
  have idx: "\<forall>e. small_decimal (attributes shared_count_page e ''data-index'')"
    by (simp add: shared_count_page_def scm_page_def blank_def small_decimal_def digit_value_def)
  have lvl: "\<forall>e. small_decimal (attributes shared_count_page e ''aria-level'')"
    by (simp add: shared_count_page_def scm_page_def blank_def small_decimal_def digit_value_def)
  have h: "first_match (matches shared_count_page (Below 30)
             (if False then L_stagedChanges else L_changes)) = Some 31"
    by (simp add: shared_count_page_def scm_page_def blank_def first_match_def)
  show ?thesis
    using C2_getChanges [of "\<lparr>world = still shared_count_page, trace = []\<rparr>" shared_count_page
        "SingleScmProvider (Some 30) \<lparr>elem = Some 50\<rparr>" 30 "\<lambda>staged d. Inr (Num 2)" False 2 31
        "MultiScmProvider (Some 20) \<lparr>elem = Some 0\<rparr>" 20 0 2, OF _ a idx lvl _ _ _ h _ _ c] c
    by (simp add: shared_count_page_def scm_page_def blank_def decimal_def digit_value_def)
qed

text \<open>
  Claim C5. For a view over element \<open>v\<close> on a page where the providers can be waited
  for, \<open>getProviders\<close> resolves to: the empty list when the view has no SCM input
  field; exactly one \<open>SingleScmProvider\<close> (over the view's single-provider element) when
  it has exactly one input field and no multi-provider container; and otherwise one
  \<open>MultiScmProvider\<close> per multi-provider item, in DOM order.
\<close>

theorem C5_getProviders:
  assumes "elem this = Some v" and "page (world s) = d"
    and "\<forall>e. appears d (Some e)"
    and "length (matches d (Below v) L_inputField) = 1 \<Longrightarrow>
         length (matches d (Below v) L_multiScmProvider) < 1 \<Longrightarrow>
         appears d (first_match (matches d (Below v) L_singleScmProvider))"
  shows "fst (getProviders this s) =
     Inr (let inputs = matches d (Below v) L_inputField;
              providers = matches d (Below v) L_multiScmProvider
          in if length inputs < 1 then []
             else if length inputs = 1 \<and> length providers < 1
               then [SingleScmProvider (first_match (matches d (Below v) L_singleScmProvider)) this]
               else map (\<lambda>element. MultiScmProvider (Some element) this)
                      (matches d (Below v) L_multiProviderItem))"
  using assms
  by (simp add: getProviders_def await_def find_all_def find_one_def issue_def resolve_def Let_def
      promise_all_def wait_def comp_def collect_all_ok collect_resolved)

theorem C5_getProviders_witness:
  "fst (getProviders \<lparr>elem = Some 60\<rparr> \<lparr>world = still scm_page, trace = []\<rparr>) = Inr [] \<and>
   fst (getProviders \<lparr>elem = Some 50\<rparr> \<lparr>world = still scm_page, trace = []\<rparr>) =
     Inr [SingleScmProvider (Some 30) \<lparr>elem = Some 50\<rparr>] \<and>
   fst (getProviders \<lparr>elem = Some 0\<rparr> \<lparr>world = still scm_page, trace = []\<rparr>) =
     Inr [MultiScmProvider (Some 10) \<lparr>elem = Some 0\<rparr>, MultiScmProvider (Some 20) \<lparr>elem = Some 0\<rparr>]"
  using C5_getProviders [of "\<lparr>elem = Some 60\<rparr>" 60 "\<lparr>world = still scm_page, trace = []\<rparr>" scm_page]
    C5_getProviders [of "\<lparr>elem = Some 50\<rparr>" 50 "\<lparr>world = still scm_page, trace = []\<rparr>" scm_page]
    C5_getProviders [of "\<lparr>elem = Some 0\<rparr>" 0 "\<lparr>world = still scm_page, trace = []\<rparr>" scm_page]
  by (simp add: scm_page_def blank_def first_match_def)

section \<open>NotificationsCenter.getNotifications\<close>

lemma notification_rows_result:
  assumes "page (world s) = d"
    and "\<forall>e\<in>set elements. appears d (Some e)"
    and "type = Any \<or> (\<forall>e\<in>set elements. getType d e = Inr (kind e))"
  shows "fst (notification_rows getType type elements acc s) =
           Inr (acc @ map CenterNotification (filter (\<lambda>e. type = Any \<or> kind e = type) elements))"
  using assms
proof (induction elements arbitrary: s acc)
  case Nil
  show ?case by (simp add: resolve_def)
next
  case (Cons element elements)
  note d = \<open>page (world s) = d\<close>
  let ?s1 = "s\<lparr>trace := trace s @ [Issued (WaitForDisplayed (Some element)),
          Settled (WaitForDisplayed (Some element))]\<rparr>"
  have s1: "page (world ?s1) = d" using d by simp
  have rest: "\<forall>e\<in>set elements. appears d (Some e)"
    "type = Any \<or> (\<forall>e\<in>set elements. getType d e = Inr (kind e))"
    using Cons.prems by auto
  have here: "appears d (Some element)" "type = Any \<or> getType d element = Inr (kind element)"
    using Cons.prems by auto
  show ?case
  proof (cases "type = Any \<or> kind element = type")
    case True
    then show ?thesis
      using Cons.IH [OF s1 rest] here d
      by (auto simp add: await_def resolve_def reading_def issue_def wait_def Let_def)
  next
    case False
    then show ?thesis
      using Cons.IH [OF d rest] here d
      by (auto simp add: await_def resolve_def reading_def issue_def wait_def Let_def)
  qed
qed

text \<open>
  Claim C6. On a page where every notification row can be waited for and \<open>getType\<close>
  answers \<open>kind e\<close> for row \<open>e\<close>: for a type other than \<open>Any\<close>, \<open>getNotifications\<close>
  resolves to the notifications over exactly the rows whose type is the one asked for,
  in DOM order; for \<open>Any\<close> it resolves to the notifications over all rows.
\<close>

theorem C6_getNotifications:
  assumes "elem this = Some c" and "page (world s) = d"
    and "\<forall>e. appears d (Some e)"
    and "\<forall>e\<in>set (matches d (Below c) L_row). getType d e = Inr (kind e)"
    and "type \<noteq> Any"
  shows "fst (getNotifications getType this type s) =
           Inr (map CenterNotification (filter (\<lambda>e. kind e = type) (matches d (Below c) L_row))) \<and>
         fst (getNotifications getType this Any s) =
           Inr (map CenterNotification (matches d (Below c) L_row))"
  using assms
  by (simp add: getNotifications_def await_def find_all_def issue_def
      notification_rows_result [where d = d and kind = kind])


theorem C6_getNotifications_witness:
  "matches notifications_page (Below 70) L_row = [71, 72, 73] \<and>
   fst (getNotifications icon_type \<lparr>elem = Some 70\<rparr> Info
          \<lparr>world = still notifications_page, trace = []\<rparr>) =
     Inr [CenterNotification 71, CenterNotification 73] \<and>
   fst (getNotifications icon_type \<lparr>elem = Some 70\<rparr> Any
          \<lparr>world = still notifications_page, trace = []\<rparr>) =
     Inr [CenterNotification 71, CenterNotification 72, CenterNotification 73]"
  using C6_getNotifications [of "\<lparr>elem = Some 70\<rparr>" 70
      "\<lparr>world = still notifications_page, trace = []\<rparr>" notifications_page icon_type
      "\<lambda>e. if e = 72 then Warning else Info" Info]
  by (simp add: notifications_page_def blank_def icon_type_def)

section \<open>Read-only computations\<close>

lemma read_only_await:
  assumes "read_only m" and "\<And>x. read_only (f x)"
  shows "read_only (await m f)"
  unfolding read_only_def
proof
  fix s
  show "world (snd (await m f s)) = world s \<and>
        interactions (trace (snd (await m f s))) = interactions (trace s)"
  proof (cases "m s")
    case (Pair r s')
    have m: "world s' = world s \<and> interactions (trace s') = interactions (trace s)"
      using assms(1) Pair by (auto simp: read_only_def dest: spec [of _ s])
    show ?thesis
    proof (cases r)
      case (Inl e)
      with Pair m show ?thesis by (simp add: await_def)
    next
      case (Inr x)
      have "world (snd (f x s')) = world s' \<and>
            interactions (trace (snd (f x s'))) = interactions (trace s')"
        using assms(2) [of x] by (simp add: read_only_def)
      with Pair Inr m show ?thesis by (simp add: await_def)
    qed
  qed
qed

lemma read_only_resolve: "read_only (resolve x)"
  by (simp add: read_only_def resolve_def)

lemma read_only_reject: "read_only (reject e)"
  by (simp add: read_only_def reject_def)

lemma read_only_issue: "(\<And>a. fst c \<noteq> Interact a) \<Longrightarrow> read_only (issue c)"
  by (cases "fst c") (auto simp add: read_only_def issue_def interactions_append)

lemma read_only_reading: "read_only (reading f)"
  by (simp add: read_only_def reading_def)

lemma read_only_if: "read_only a \<Longrightarrow> read_only b \<Longrightarrow> read_only (if c then a else b)"
  by simp

lemma read_only_find_all: "read_only (find_all r l)"
  by (simp add: find_all_def read_only_reject read_only_issue split: option.splits)

lemma read_only_find_one: "read_only (find_one r l)"
  by (simp add: find_one_def read_only_reject read_only_issue split: option.splits)

lemma read_only_getAttribute: "read_only (getAttribute r n)"
  by (simp add: getAttribute_def getAttribute_call_def read_only_reject read_only_issue
      split: option.splits)

lemma read_only_getText: "read_only (getText r)"
  by (simp add: getText_def read_only_reject read_only_issue split: option.splits)

lemma read_only_item_elem: "read_only (item_elem pick)"
  by (simp add: item_elem_def find_in_document_def read_only_issue)

lemmas read_only_intros = read_only_await read_only_resolve read_only_reject
  read_only_reading read_only_if read_only_find_all read_only_find_one read_only_getAttribute
  read_only_getText read_only_item_elem

lemma read_only_getLabel: "read_only (getLabel pick)"
  unfolding getLabel_def by (intro read_only_intros)

section \<open>QuickPickItem\<close>

text \<open>
  Claim C3, at the failing input: a quick pick item whose row is on the page but has no
  description element. The \<open>getText\<close> promise is returned without \<open>await\<close>, so its
  rejection is not seen by the \<open>catch\<close> block and \<open>getDescription\<close> rejects instead of
  resolving to \<open>undefined\<close>. With \<open>return await\<close> the same body resolves to \<open>undefined\<close>.
\<close>

theorem C3_getDescription_rejects:
  "matches picks_page Document (L_quickPickIndex (Num 3)) = [80] \<and>
   matches picks_page (Below 80) L_quickPickDescription = [] \<and>
   fst (getDescription (new_QuickPickItem (Num 3)) \<lparr>world = still picks_page, trace = []\<rparr>) =
     Inl NoSuchElement \<and>
   fst (try_await
          (await (item_elem (new_QuickPickItem (Num 3))) (\<lambda>e.
           await (find_one e L_quickPickDescription) (\<lambda>description.
           await (getText description) (\<lambda>t. resolve (Some t)))))
          (\<lambda>err. resolve None)
          \<lparr>world = still picks_page, trace = []\<rparr>) = Inr None"
  by (simp add: getDescription_def try_return_def try_await_def new_QuickPickItem_def item_elem_def
      find_in_document_def find_one_def getText_def await_def issue_def reject_def resolve_def
      first_match_def picks_page_def blank_def)

text \<open>The other half of claim C3 holds: \<open>Input.back\<close> resolves to \<open>false\<close>, and clicks
  nothing, when the title bar is absent or not displayed, or when no back button is
  enabled.\<close>

lemma Input_back_false:
  assumes "elem this = Some root" and "page (world s) = d"
    and "matches d (Below root) L_titleBar = [] \<or>
         \<not> displayed d (hd (matches d (Below root) L_titleBar)) \<or>
         (\<forall>b\<in>set (matches d (Below (hd (matches d (Below root) L_titleBar))) L_backButton).
            \<not> enabled d b)"
  shows "fst (Input_back this s) = Inr False \<and> world (snd (Input_back this s)) = world s \<and>
         interactions (trace (snd (Input_back this s))) = interactions (trace s)"
proof (cases "matches d (Below root) L_titleBar")
  case Nil
  then show ?thesis
    using assms(1,2)
    by (simp add: Input_back_def await_def find_all_def issue_def resolve_def interactions_append)
next
  case (Cons bar bars)
  note bar = Cons
  show ?thesis
  proof (cases "displayed d bar")
    case False
    then show ?thesis
      using assms(1,2) bar
      by (simp add: Input_back_def await_def find_all_def issue_def resolve_def interactions_append
          method_on_def at_index_def isDisplayed_def)
  next
    case True
    with assms(3) bar have none: "\<forall>b\<in>set (matches d (Below bar) L_backButton). \<not> enabled d b"
      by simp
    show ?thesis
    proof (cases "matches d (Below bar) L_backButton")
      case Nil
      then show ?thesis
        using assms(1,2) bar True
        by (simp add: Input_back_def await_def find_all_def issue_def resolve_def interactions_append
            method_on_def at_index_def isDisplayed_def)
    next
      case (Cons b bs)
      with none have "\<not> enabled d b" by simp
      then show ?thesis
        using assms(1,2) bar True Cons
        by (simp add: Input_back_def await_def find_all_def issue_def resolve_def interactions_append
            method_on_def at_index_def isDisplayed_def isEnabled_def)
    qed
  qed
qed


subsection \<open>What the methods depend on\<close>


























































section \<open>Commands in flight\<close>

lemma peak_ge: "n \<le> peak n es"
  by (induction n es rule: peak.induct) auto

lemma peak_append: "peak n (xs @ ys) = max (peak n xs) (peak (level n xs) ys)"
proof (induction n xs rule: peak.induct)
  case (1 n)
  show ?case using peak_ge [of n ys] by simp
next
  case (2 n c es)
  then show ?case by (simp add: max.assoc)
next
  case (3 n c es)
  then show ?case by (simp add: max.assoc)
qed

lemma peak_issued: "peak n (map (\<lambda>x. Issued (f x)) xs) = n + length xs"
proof (induction xs arbitrary: n)
  case Nil
  show ?case by simp
next
  case (Cons x xs)
  show ?case by (simp add: Cons.IH)
qed

lemma level_issued: "level n (map (\<lambda>x. Issued (f x)) xs) = n + length xs"
  by (induction xs arbitrary: n) simp_all

lemma peak_settled: "peak n (map (\<lambda>x. Settled (f x)) xs) = n"
proof (induction xs arbitrary: n)
  case Nil
  show ?case by simp
next
  case (Cons x xs)
  show ?case by (simp add: Cons.IH)
qed

lemma level_settled: "level n (map (\<lambda>x. Settled (f x)) xs) = n - length xs"
  by (induction xs arbitrary: n) simp_all

lemma peak_fan_out:
  "peak 0 (pre @ map (\<lambda>x. Issued (f x)) xs @ map (\<lambda>x. Settled (f x)) xs @ post) =
     max (max (peak 0 pre) (level 0 pre + length xs)) (peak (level 0 pre) post)"
  using peak_ge [of "level 0 pre" post]
  by (simp add: peak_append peak_issued level_issued peak_settled level_settled)

lemma pushButton_trace:
  assumes r: "elem this = Some root" and d: "page (world s) = d"
    and c: "first_match (matches d (Below root) L_buttonContainer) = Some c"
  shows "trace (snd (pushButton this title s)) =
     trace s @
     [Issued (FindOne (Below root) L_buttonContainer),
      Settled (FindOne (Below root) L_buttonContainer),
      Issued (FindAll (Below c) L_button), Settled (FindAll (Below c) L_button)] @
     map (\<lambda>b. Issued (GetAttribute b ''title'')) (matches d (Below c) L_button) @
     map (\<lambda>b. Settled (GetAttribute b ''title'')) (matches d (Below c) L_button) @
     (case List.find (\<lambda>b. attributes d b ''title'' = Some title) (matches d (Below c) L_button) of
        None \<Rightarrow> []
      | Some b \<Rightarrow> [Issued (Interact (Click b)), Settled (Interact (Click b))])"
proof -
  let ?bs = "matches d (Below c) L_button"
  let ?s1 = "s\<lparr>trace := trace s @
     [Issued (FindOne (Below root) L_buttonContainer),
      Settled (FindOne (Below root) L_buttonContainer),
      Issued (FindAll (Below c) L_button), Settled (FindAll (Below c) L_button)]\<rparr>"
  have gb: "getButtons this s = (Inr ?bs, ?s1)"
    using r d c by (simp add: getButtons_def await_def find_one_def find_all_def issue_def)
  show ?thesis
  proof (cases "List.find (\<lambda>b. attributes d b ''title'' = Some title) ?bs")
    case None
    then have "\<not> findIndex (\<lambda>v. v = Some title) (map (\<lambda>b. attributes d b ''title'') ?bs) > -1"
      by (simp add: findIndex_found)
    with None show ?thesis
      using d
      by (simp add: pushButton_def await_def gb promise_all_def getAttribute_call_def comp_def
          collect_resolved resolve_def)
  next
    case (Some b)
    then have "findIndex (\<lambda>v. v = Some title) (map (\<lambda>b. attributes d b ''title'') ?bs) > -1"
      by (simp add: findIndex_found)
    moreover have "at_index ?bs (findIndex (\<lambda>v. v = Some title)
        (map (\<lambda>b. attributes d b ''title'') ?bs)) = Some b"
      using Some by (simp add: at_index_findIndex)
    ultimately show ?thesis
      using Some d
      by (simp add: pushButton_def await_def gb promise_all_def getAttribute_call_def comp_def
          collect_resolved method_on_def click_def perform_def)
  qed
qed

lemma takeAction_trace:
  assumes p: "base this = Some p" and d: "page (world s) = d"
  shows "trace (snd (Multi_takeAction this title s)) =
     trace s @
     [Issued (FindAll (Below p) L_action), Settled (FindAll (Below p) L_action)] @
     map (\<lambda>b. Issued (GetAttribute b ''title'')) (matches d (Below p) L_action) @
     map (\<lambda>b. Settled (GetAttribute b ''title'')) (matches d (Below p) L_action) @
     (case List.find (\<lambda>b. attributes d b ''title'' = Some title) (matches d (Below p) L_action) of
        None \<Rightarrow> []
      | Some b \<Rightarrow> [Issued (Interact (Click b)), Settled (Interact (Click b))])"
proof -
  let ?bs = "matches d (Below p) L_action"
  show ?thesis
  proof (cases "List.find (\<lambda>b. attributes d b ''title'' = Some title) ?bs")
    case None
    then have "\<not> findIndex (\<lambda>v. v = Some title) (map (\<lambda>b. attributes d b ''title'') ?bs) > -1"
      by (simp add: findIndex_found)
    with None show ?thesis
      using d p
      by (simp add: Multi_takeAction_def await_def find_all_def issue_def promise_all_def
          getAttribute_call_def comp_def collect_resolved resolve_def)
  next
    case (Some b)
    then have "findIndex (\<lambda>v. v = Some title) (map (\<lambda>b. attributes d b ''title'') ?bs) > -1"
      by (simp add: findIndex_found)
    moreover have "at_index ?bs (findIndex (\<lambda>v. v = Some title)
        (map (\<lambda>b. attributes d b ''title'') ?bs)) = Some b"
      using Some by (simp add: at_index_findIndex)
    ultimately show ?thesis
      using Some d p
      by (simp add: Multi_takeAction_def await_def find_all_def issue_def promise_all_def
          getAttribute_call_def comp_def collect_resolved method_on_def click_def perform_def
          resolve_def)
  qed
qed

text \<open>
  Claim C8 fails: \<open>pushButton\<close> on a dialog with three buttons has three title reads
  in flight at once.
\<close>

theorem C8_in_flight_counterexample:
  "peak 0 (trace (snd (pushButton \<lparr>elem = Some 0\<rparr> ''No''
       \<lparr>world = still dialog_page, trace = []\<rparr>))) = 3"
  using pushButton_trace [of "\<lparr>elem = Some 0\<rparr>" 0 "\<lparr>world = still dialog_page, trace = []\<rparr>"
      dialog_page 1 "''No''"]
  by (simp add: dialog_page_def blank_def first_match_def)

text \<open>
  Claim C8, amended. \<open>ModalDialog.pushButton\<close> and \<open>MultiScmProvider.takeAction\<close> send
  their element queries and their click one at a time, each after every earlier command
  has settled, but they send the title reads of the \<open>n\<close> elements found together
  (\<open>Promise.all\<close> over \<open>map\<close>): the log is the queries, each sent and settled, then
  \<open>n\<close> reads sent, then their \<open>n\<close> answers, then the click if a title matches, and the
  largest number of commands in flight is \<open>max 1 n\<close>.
\<close>

theorem C8_round_trips:
  assumes "page (world s) = d"
    and "elem dialog = Some root"
    and "first_match (matches d (Below root) L_buttonContainer) = Some c"
    and "page (world s') = d'"
    and "base provider = Some p"
  shows "trace (snd (pushButton dialog title s)) =
           trace s @
           [Issued (FindOne (Below root) L_buttonContainer),
            Settled (FindOne (Below root) L_buttonContainer),
            Issued (FindAll (Below c) L_button), Settled (FindAll (Below c) L_button)] @
           map (\<lambda>b. Issued (GetAttribute b ''title'')) (matches d (Below c) L_button) @
           map (\<lambda>b. Settled (GetAttribute b ''title'')) (matches d (Below c) L_button) @
           (case List.find (\<lambda>b. attributes d b ''title'' = Some title)
                   (matches d (Below c) L_button) of
              None \<Rightarrow> []
            | Some b \<Rightarrow> [Issued (Interact (Click b)), Settled (Interact (Click b))]) \<and>
         peak 0 (drop (length (trace s)) (trace (snd (pushButton dialog title s)))) =
           max 1 (length (matches d (Below c) L_button)) \<and>
         trace (snd (Multi_takeAction provider title s')) =
           trace s' @
           [Issued (FindAll (Below p) L_action), Settled (FindAll (Below p) L_action)] @
           map (\<lambda>b. Issued (GetAttribute b ''title'')) (matches d' (Below p) L_action) @
           map (\<lambda>b. Settled (GetAttribute b ''title'')) (matches d' (Below p) L_action) @
           (case List.find (\<lambda>b. attributes d' b ''title'' = Some title)
                   (matches d' (Below p) L_action) of
              None \<Rightarrow> []
            | Some b \<Rightarrow> [Issued (Interact (Click b)), Settled (Interact (Click b))]) \<and>
         peak 0 (drop (length (trace s')) (trace (snd (Multi_takeAction provider title s')))) =
           max 1 (length (matches d' (Below p) L_action))"
proof -
  note push = pushButton_trace [OF assms(2,1,3), of title]
  note take = takeAction_trace [OF assms(5,4), of title]
  have "peak 0 (drop (length (trace s)) (trace (snd (pushButton dialog title s)))) =
     peak 0 ([Issued (FindOne (Below root) L_buttonContainer),
      Settled (FindOne (Below root) L_buttonContainer),
      Issued (FindAll (Below c) L_button), Settled (FindAll (Below c) L_button)] @
     map (\<lambda>b. Issued (GetAttribute b ''title'')) (matches d (Below c) L_button) @
     map (\<lambda>b. Settled (GetAttribute b ''title'')) (matches d (Below c) L_button) @
     (case List.find (\<lambda>b. attributes d b ''title'' = Some title) (matches d (Below c) L_button) of
        None \<Rightarrow> []
      | Some b \<Rightarrow> [Issued (Interact (Click b)), Settled (Interact (Click b))]))"
    by (simp add: push)
  also have "\<dots> = max 1 (length (matches d (Below c) L_button))"
    by (subst peak_fan_out) (simp split: option.splits)
  finally have p1: "peak 0 (drop (length (trace s)) (trace (snd (pushButton dialog title s)))) =
           max 1 (length (matches d (Below c) L_button))" .
  have "peak 0 (drop (length (trace s')) (trace (snd (Multi_takeAction provider title s')))) =
     peak 0 ([Issued (FindAll (Below p) L_action), Settled (FindAll (Below p) L_action)] @
     map (\<lambda>b. Issued (GetAttribute b ''title'')) (matches d' (Below p) L_action) @
     map (\<lambda>b. Settled (GetAttribute b ''title'')) (matches d' (Below p) L_action) @
     (case List.find (\<lambda>b. attributes d' b ''title'' = Some title) (matches d' (Below p) L_action) of
        None \<Rightarrow> []
      | Some b \<Rightarrow> [Issued (Interact (Click b)), Settled (Interact (Click b))]))"
    by (simp add: take)
  also have "\<dots> = max 1 (length (matches d' (Below p) L_action))"
    by (subst peak_fan_out) (simp split: option.splits)
  finally have p2: "peak 0 (drop (length (trace s')) (trace (snd (Multi_takeAction provider title s')))) =
           max 1 (length (matches d' (Below p) L_action))" .
  from push p1 take p2 show ?thesis by blast
qed

theorem C8_round_trips_witness:
  "peak 0 (trace (snd (pushButton \<lparr>elem = Some 0\<rparr> ''Refresh''
       \<lparr>world = still dialog_page, trace = []\<rparr>))) = 3 \<and>
   peak 0 (trace (snd (Multi_takeAction (MultiScmProvider (Some 10) \<lparr>elem = Some 0\<rparr>) ''Refresh''
       \<lparr>world = still scm_page, trace = []\<rparr>))) = 2"
  using C8_round_trips [of "\<lparr>world = still dialog_page, trace = []\<rparr>" dialog_page
      "\<lparr>elem = Some 0\<rparr>" 0 1 "\<lparr>world = still scm_page, trace = []\<rparr>" scm_page
      "MultiScmProvider (Some 10) \<lparr>elem = Some 0\<rparr>" 10 "''Refresh''"]
  by (simp add: dialog_page_def scm_page_def blank_def first_match_def)

section \<open>Input.findQuickPick\<close>

lemma scan_result_find: "fst (scan_result d root k picks e0) = List.find (is_match d k) picks"
  by (induction picks arbitrary: e0) simp_all

lemma scan_result_end:
  "List.find (is_match d k) picks = None \<Longrightarrow>
   snd (scan_result d root k picks e0) = (e0 \<or> (\<exists>p\<in>set picks. end_seen d root p))"
  by (induction picks arbitrary: e0) (auto split: if_splits)

lemma read_only_scan_picks: "read_only (scan_picks this k picks e0)"
proof (induction picks arbitrary: e0 k)
  case Nil
  show ?case by (simp add: read_only_resolve)
next
  case (Cons pick picks)
  show ?case
    unfolding scan_picks.simps
    by (cases k) (auto intro!: read_only_intros read_only_getLabel Cons.IH)
qed

lemma scan_picks_text:
  assumes "elem this = Some root" and "page (world s) = d"
    and "\<forall>pick\<in>set picks. label_of d pick \<noteq> None"
  shows "fst (scan_picks this (Text t) picks e0 s) = Inr (scan_result d root (Text t) picks e0)"
  using assms(2,3)
proof (induction picks arbitrary: s e0)
  case Nil
  show ?case by (simp add: resolve_def)
next
  case (Cons pick picks)
  note d = \<open>page (world s) = d\<close>
  from Cons.prems obtain e l where e: "item_row d pick = Some e"
    and l: "first_match (matches d (Below e) L_quickPickLabel) = Some l"
    by (auto simp: label_of_def split: option.splits)
  have IH: "\<And>s e0. page (world s) = d \<Longrightarrow>
      fst (scan_picks this (Text t) picks e0 s) = Inr (scan_result d root (Text t) picks e0)"
    using Cons.IH Cons.prems by simp
  have e': "first_match (matches d Document (locator pick)) = Some e"
    using e by (simp add: item_row_def)
  show ?case
    using assms(1) d e e' l
    by (cases "matches d (Below root) L_lastRow = []";
        cases "attributes d e ''aria-posinset'' = attributes d e ''aria-setsize''";
        cases "indexOf (innerText d l) t > -1")
      (simp_all add: await_def find_all_def find_one_def find_in_document_def item_elem_def
        getAttribute_def getAttribute_call_def getLabel_def getText_def issue_def
        resolve_def end_seen_def is_match_def label_of_def IH)
qed

lemma scan_picks_index:
  assumes "elem this = Some root" and "page (world s) = d"
    and "\<forall>pick\<in>set picks. label_of d pick \<noteq> None"
  shows "fst (scan_picks this (Index i) picks e0 s) = Inr (scan_result d root (Index i) picks e0)"
  using assms(2,3)
proof (induction picks arbitrary: s e0)
  case Nil
  show ?case by (simp add: resolve_def)
next
  case (Cons pick picks)
  note d = \<open>page (world s) = d\<close>
  from Cons.prems obtain e l where e: "item_row d pick = Some e"
    and l: "first_match (matches d (Below e) L_quickPickLabel) = Some l"
    by (auto simp: label_of_def split: option.splits)
  have IH: "\<And>s e0. page (world s) = d \<Longrightarrow>
      fst (scan_picks this (Index i) picks e0 s) = Inr (scan_result d root (Index i) picks e0)"
    using Cons.IH Cons.prems by simp
  have e': "first_match (matches d Document (locator pick)) = Some e"
    using e by (simp add: item_row_def)
  show ?case
    using assms(1) d e e' l
    by (cases "matches d (Below root) L_lastRow = []";
        cases "attributes d e ''aria-posinset'' = attributes d e ''aria-setsize''";
        cases "strict_eq i (index pick)")
      (simp_all add: await_def find_all_def find_one_def find_in_document_def item_elem_def
        getAttribute_def getAttribute_call_def issue_def
        resolve_def end_seen_def is_match_def label_of_def getIndex_def IH)
qed

lemma scan_picks_result:
  assumes "elem this = Some root" and "page (world s) = d"
    and "\<forall>pick\<in>set picks. label_of d pick \<noteq> None"
  shows "fst (scan_picks this k picks e0 s) = Inr (scan_result d root k picks e0)"
  using assms by (cases k) (simp_all add: scan_picks_text scan_picks_index)

lemma scroll_and_scan_step:
  assumes root: "elem this = Some root" and d: "page (world s) = d"
    and picks: "getQuickPicks this d = Inr picks"
    and rendered: "\<forall>pick\<in>set picks. label_of d pick \<noteq> None"
  shows "world (snd (scan_picks this k picks False s)) = world s \<and>
     interactions (trace (snd (scan_picks this k picks False s))) = interactions (trace s) \<and>
     scroll_and_scan this k (Some i) s =
       (case List.find (is_match d k) picks of
          Some pick \<Rightarrow> Some (Inr (Some pick), snd (scan_picks this k picks False s))
        | None \<Rightarrow>
            if \<exists>pick\<in>set picks. end_seen d root pick
            then Some (Inr None, snd (scan_picks this k picks False s))
            else scroll_and_scan this k (Some i)
                   \<lparr>world = after (world s) (AddValue i [''PageDown'']),
                    trace = trace (snd (scan_picks this k picks False s)) @
                      [Issued (Interact (AddValue i [''PageDown''])),
                       Settled (Interact (AddValue i [''PageDown'']))]\<rparr>)"
proof -
  obtain r s' where sp: "scan_picks this k picks False s = (r, s')"
    by (cases "scan_picks this k picks False s")
  have r: "r = Inr (scan_result d root k picks False)"
    using scan_picks_result [OF root d rendered, of k False] by (simp add: sp)
  have ro: "world s' = world s" "interactions (trace s') = interactions (trace s)"
    using read_only_scan_picks [of this k picks False] by (auto simp: read_only_def sp dest: spec [of _ s])
  obtain found e where sr: "scan_result d root k picks False = (found, e)"
    by (cases "scan_result d root k picks False")
  have found: "found = List.find (is_match d k) picks"
    using scan_result_find [of d root k picks False] by (simp add: sr)
  have pass: "await (reading (getQuickPicks this)) (\<lambda>picks. scan_picks this k picks False) s =
      (Inr (found, e), s')"
    using d picks by (simp add: await_def reading_def sp r sr)
  show ?thesis
  proof (cases found)
    case (Some pick)
    then show ?thesis
      using found ro
      by (subst scroll_and_scan.simps) (simp add: pass sp)
  next
    case None
    then have e: "e = (\<exists>p\<in>set picks. end_seen d root p)"
      using scan_result_end [of d k picks root False] found by (simp add: sr)
    show ?thesis
      using None found ro e
      by (subst scroll_and_scan.simps) (simp add: pass sp addValue_def perform_def)
  qed
qed

lemma findQuickPick_enters_loop:
  assumes "elem this = Some root" and "page (world s) = d"
    and "first_match (matches d (Below root) L_inputBox) = Some b"
    and "first_match (matches d (Below b) L_input) = Some i"
    and "matches d (Below root) (L_quickPickPosition (Num 1)) \<noteq> []"
  shows "findQuickPick this k s =
     scroll_and_scan this k (Some i)
       (s\<lparr>trace := trace s @
          [Issued (FindOne (Below root) L_inputBox), Settled (FindOne (Below root) L_inputBox),
           Issued (FindOne (Below b) L_input), Settled (FindOne (Below b) L_input),
           Issued (FindAll (Below root) (L_quickPickPosition (Num 1))),
           Settled (FindAll (Below root) (L_quickPickPosition (Num 1)))]\<rparr>)"
  using assms
  by (simp add: findQuickPick_def input_field_def await_def find_one_def find_all_def issue_def
      resolve_def)

lemma empty_batch_never_returns:
  assumes "getQuickPicks this d = Inr []"
  shows "scroll_and_scan this k (Some i) \<lparr>world = still d, trace = t\<rparr> = None"
proof -
  have never: "\<not> (a = this \<and> c = Some i \<and> world e = still d)"
    if "scroll_and_scan a b c e = Some y" for a b c e y
    using that
  proof (rule scroll_and_scan.raw_induct
      [rotated, where P = "\<lambda>a b c e y. \<not> (a = this \<and> c = Some i \<and> world e = still d)"])
    fix f :: "Input \<Rightarrow> key \<Rightarrow> ref \<Rightarrow> session \<Rightarrow> ((error + QuickPickItem option) \<times> session) option"
    fix a b c e y
    assume IH: "\<And>a b c e y. f a b c e = Some y \<Longrightarrow>
        \<not> (a = this \<and> c = Some i \<and> world e = still d)"
    assume body: "(case await (reading (getQuickPicks a)) (\<lambda>picks. scan_picks a b picks False) e of
        (Inl err, s') \<Rightarrow> Some (Inl err, s')
      | (Inr (None, endReached), s') \<Rightarrow>
          if \<not> endReached
          then case addValue c [''PageDown''] s' of
                 (Inl err, s'') \<Rightarrow> Some (Inl err, s'')
               | (Inr x, s'') \<Rightarrow> f a b c s''
          else Some (Inr None, s')
      | (Inr (Some pick, endReached), s') \<Rightarrow> Some (Inr (Some pick), s')) = Some y"
    show "\<not> (a = this \<and> c = Some i \<and> world e = still d)"
    proof
      assume here: "a = this \<and> c = Some i \<and> world e = still d"
      then have "f a b c
          \<lparr>world = still d,
           trace = trace e @ [Issued (Interact (AddValue i [''PageDown''])),
                              Settled (Interact (AddValue i [''PageDown'']))]\<rparr> = Some y"
        using body assms
        by (simp add: await_def reading_def resolve_def addValue_def perform_def)
      from IH [OF this] here show False by simp
    qed
  qed
  show ?thesis
  proof (cases "scroll_and_scan this k (Some i) \<lparr>world = still d, trace = t\<rparr>")
    case None
    then show ?thesis .
  next
    case (Some y)
    from never [OF this] show ?thesis by simp
  qed
qed

text \<open>
  Claim C1 fails as stated: the scan also ends where neither end-of-list condition
  holds. Here the first pick's label contains the text, no last-row sentinel is on the
  page and \<open>aria-posinset\<close> differs from \<open>aria-setsize\<close>, and \<open>findQuickPick\<close> returns
  the pick.
\<close>

theorem C1_returns_before_end_counterexample:
  "matches picks_page (Below 90) L_lastRow = [] \<and>
   attributes picks_page 80 ''aria-posinset'' \<noteq> attributes picks_page 80 ''aria-setsize'' \<and>
   map_option fst (findQuickPick paged_input (Text ''Open'') \<lparr>world = still picks_page, trace = []\<rparr>) =
     Some (Inr (Some (new_QuickPickItem (Num 3))))"
proof -
  have "map_option fst (findQuickPick paged_input (Text ''Open'') \<lparr>world = still picks_page, trace = []\<rparr>) =
     Some (Inr (Some (new_QuickPickItem (Num 3))))"
    unfolding findQuickPick_def
    apply (subst scroll_and_scan.simps)
    apply (simp add: paged_input_def input_field_def await_def find_one_def find_all_def issue_def
      resolve_def reading_def find_in_document_def item_elem_def getAttribute_def
      getAttribute_call_def getLabel_def getText_def new_QuickPickItem_def indexOf_def
      first_match_def picks_page_def blank_def)
    done
  then show ?thesis by (simp add: picks_page_def blank_def)
qed

text \<open>
  Claim C1, amended. One pass of the loop of \<open>findQuickPick\<close>, started in any session
  \<open>s\<close> on a page whose batch of rendered picks is not empty (each pick with its row and
  label on the page), only reads the page and then:

  \<^item> returns the first pick of the batch that matches the key (its label contains the
    text, or its index is the number asked for), whether or not the end was seen;
  \<^item> without a match, resolves to \<open>undefined\<close> exactly when the end was seen at some pick
    of the batch: a last-row sentinel is present, or the pick's \<open>aria-posinset\<close> equals
    its \<open>aria-setsize\<close>;
  \<^item> otherwise presses \<open>PageDown\<close> once, its only interaction, and scans the page the
    application shows next.

  \<open>findQuickPick\<close> enters this loop right after its queries when the input field and a
  pick at position 1 are on the page. A batch with no pick is left out here.
\<close>

theorem C1_findQuickPick:
  assumes "elem this = Some root" and "page (world s) = d"
    and "getQuickPicks this d = Inr picks" and "picks \<noteq> []"
    and "\<forall>pick\<in>set picks. label_of d pick \<noteq> None"
  shows "world (snd (scan_picks this k picks False s)) = world s \<and>
     interactions (trace (snd (scan_picks this k picks False s))) = interactions (trace s) \<and>
     scroll_and_scan this k (Some i) s =
       (case List.find (is_match d k) picks of
          Some pick \<Rightarrow> Some (Inr (Some pick), snd (scan_picks this k picks False s))
        | None \<Rightarrow>
            if \<exists>pick\<in>set picks. end_seen d root pick
            then Some (Inr None, snd (scan_picks this k picks False s))
            else scroll_and_scan this k (Some i)
                   \<lparr>world = after (world s) (AddValue i [''PageDown'']),
                    trace = trace (snd (scan_picks this k picks False s)) @
                      [Issued (Interact (AddValue i [''PageDown''])),
                       Settled (Interact (AddValue i [''PageDown'']))]\<rparr>) \<and>
     (first_match (matches d (Below root) L_inputBox) = Some b \<and>
      first_match (matches d (Below b) L_input) = Some i \<and>
      matches d (Below root) (L_quickPickPosition (Num 1)) \<noteq> [] \<longrightarrow>
      findQuickPick this k s =
        scroll_and_scan this k (Some i)
          (s\<lparr>trace := trace s @
             [Issued (FindOne (Below root) L_inputBox), Settled (FindOne (Below root) L_inputBox),
              Issued (FindOne (Below b) L_input), Settled (FindOne (Below b) L_input),
              Issued (FindAll (Below root) (L_quickPickPosition (Num 1))),
              Settled (FindAll (Below root) (L_quickPickPosition (Num 1)))]\<rparr>))"
  using scroll_and_scan_step [OF assms(1,2,3,5), of k i]
    findQuickPick_enters_loop [OF assms(1,2), of b i k]
  by simp

theorem C1_findQuickPick_witness:
  "map_option fst (findQuickPick paged_input (Text ''Save'')
       \<lparr>world = paged picks_page [last_page], trace = []\<rparr>) = Some (Inr None) \<and>
   map_option (\<lambda>r. interactions (trace (snd r))) (findQuickPick paged_input (Text ''Save'')
       \<lparr>world = paged picks_page [last_page], trace = []\<rparr>) = Some [AddValue 92 [''PageDown'']]"
proof -
  let ?k = "Text ''Save''"
  let ?s0 = "\<lparr>world = paged picks_page [last_page], trace = []\<rparr>"
  define sa where "sa = ?s0\<lparr>trace := 
             [Issued (FindOne (Below 90) L_inputBox), Settled (FindOne (Below 90) L_inputBox),
              Issued (FindOne (Below 91) L_input), Settled (FindOne (Below 91) L_input),
              Issued (FindAll (Below 90) (L_quickPickPosition (Num 1))),
              Settled (FindAll (Below 90) (L_quickPickPosition (Num 1)))]\<rparr>"
  define sb where "sb = \<lparr>world = paged last_page [],
      trace = trace (snd (scan_picks paged_input ?k [new_QuickPickItem (Num 3)] False sa)) @
                      [Issued (Interact (AddValue 92 [''PageDown''])),
                       Settled (Interact (AddValue 92 [''PageDown'']))]\<rparr>"
  have labels: "label_of picks_page (new_QuickPickItem (Num 3)) = Some ''Open File''"
    "label_of last_page (new_QuickPickItem (Num 8)) = Some ''Close Window''"
    by (simp_all add: label_of_def item_row_def new_QuickPickItem_def last_page_def page_defs)
  have ends: "\<not> end_seen picks_page 90 (new_QuickPickItem (Num 3))"
    "end_seen last_page 90 (new_QuickPickItem (Num 8))"
    by (simp_all add: end_seen_def item_row_def new_QuickPickItem_def last_page_def page_defs)
  have nomatch: "\<not> is_match picks_page ?k (new_QuickPickItem (Num 3))"
    "\<not> is_match last_page ?k (new_QuickPickItem (Num 8))"
    by (simp_all add: is_match_def labels indexOf_def)
  have p1: "getQuickPicks paged_input picks_page = Inr [new_QuickPickItem (Num 3)]"
    and p2: "getQuickPicks paged_input last_page = Inr [new_QuickPickItem (Num 8)]"
    and root: "elem paged_input = Some 90"
    by (simp_all add: paged_input_def last_page_def page_defs)
  have rendered: "\<forall>pick\<in>set [new_QuickPickItem (Num 3)]. label_of picks_page pick \<noteq> None"
    "\<forall>pick\<in>set [new_QuickPickItem (Num 8)]. label_of last_page pick \<noteq> None"
    by (simp_all add: labels)
  have field: "first_match (matches picks_page (Below 90) L_inputBox) = Some 91"
    "first_match (matches picks_page (Below 91) L_input) = Some 92"
    "matches picks_page (Below 90) (L_quickPickPosition (Num 1)) \<noteq> []"
    by (simp_all add: page_defs)
  have pages: "page (world ?s0) = picks_page" "page (world sa) = picks_page"
    "page (world sb) = last_page"
    by (simp_all add: sa_def sb_def)
  have moved: "after (world sa) (AddValue 92 [''PageDown'']) = paged last_page []"
    by (simp add: sa_def)
  note t0 = C1_findQuickPick [OF root pages(1) p1 _ rendered(1), of ?k 92 91]
  note ta = C1_findQuickPick [OF root pages(2) p1 _ rendered(1), of ?k 92 91]
  note tb = C1_findQuickPick [OF root pages(3) p2 _ rendered(2), of ?k 92 91]
  have link: "findQuickPick paged_input ?k ?s0 = scroll_and_scan paged_input ?k (Some 92) sa"
    using t0 field by (simp add: sa_def del: scan_picks.simps)
  have step1: "scroll_and_scan paged_input ?k (Some 92) sa = scroll_and_scan paged_input ?k (Some 92) sb"
    and tr1: "interactions (trace (snd (scan_picks paged_input ?k [new_QuickPickItem (Num 3)] False sa))) = []"
    using ta ends nomatch moved by (simp_all add: sb_def sa_def del: scan_picks.simps)
  have step2: "scroll_and_scan paged_input ?k (Some 92) sb =
      Some (Inr None, snd (scan_picks paged_input ?k [new_QuickPickItem (Num 8)] False sb))"
    and tr2: "interactions (trace (snd (scan_picks paged_input ?k [new_QuickPickItem (Num 8)] False sb))) =
      interactions (trace sb)"
    using tb ends nomatch by (simp_all del: scan_picks.simps)
  show ?thesis
    by (simp add: link step1 step2 tr2 del: scan_picks.simps)
      (simp add: sb_def interactions_append tr1 del: scan_picks.simps)
qed

end
